theory Spec2Isabelle
  imports Complex_Main "HOL-Library.AList" "HOL-Library.Sublist"
begin

section \<open>Python strings\<close>

text \<open>
  A Python \<^verbatim>\<open>str\<close> is a sequence of Unicode code points, so it is modelled as a list of
  natural numbers; \<^verbatim>\<open>len\<close> is \<open>length\<close>. ASCII text is written with \<open>asc\<close>.
  Two code points outside ASCII occur in the sources: the rupee sign (U+20B9) and the
  multiplication sign (U+00D7).
\<close>

type_synonym pystr = "nat list"

definition asc :: "string \<Rightarrow> pystr" where
  "asc s = map of_char s"

definition rupee :: nat where
  "rupee = 8377"

definition times_sign :: nat where
  "times_sign = 215"

text \<open>\<^verbatim>\<open>sub in s\<close> on strings: \<open>sub\<close> occurs in \<open>s\<close> as a contiguous block.\<close>

fun starts_with :: "'a list \<Rightarrow> 'a list \<Rightarrow> bool" where
  "starts_with s [] = True"
| "starts_with [] (p # ps) = False"
| "starts_with (c # cs) (p # ps) = (c = p \<and> starts_with cs ps)"

fun str_in :: "'a list \<Rightarrow> 'a list \<Rightarrow> bool" where
  "str_in sub [] = (sub = [])"
| "str_in sub (c # cs) = (starts_with (c # cs) sub \<or> str_in sub cs)"

text \<open>
  Character classes. \<open>is_space\<close> is the set of code points for which \<^verbatim>\<open>str.isspace\<close> holds;
  \<^verbatim>\<open>strip()\<close>, \<^verbatim>\<open>split()\<close> and the pattern \<^verbatim>\<open>\s\<close> all use it. Digits, word characters and
  case mapping are modelled on ASCII: code points above 127 are not digits, not word characters, and
  are left alone by \<open>lower\<close>.
\<close>

definition is_space :: "nat \<Rightarrow> bool" where
  "is_space c \<longleftrightarrow> (9 \<le> c \<and> c \<le> 13) \<or> (28 \<le> c \<and> c \<le> 32) \<or> c = 133 \<or> c = 160 \<or> c = 5760
     \<or> (8192 \<le> c \<and> c \<le> 8202) \<or> c = 8232 \<or> c = 8233 \<or> c = 8239 \<or> c = 8287 \<or> c = 12288"

definition is_digit :: "nat \<Rightarrow> bool" where
  "is_digit c \<longleftrightarrow> 48 \<le> c \<and> c \<le> 57"

definition is_word :: "nat \<Rightarrow> bool" where
  "is_word c \<longleftrightarrow> is_digit c \<or> (65 \<le> c \<and> c \<le> 90) \<or> (97 \<le> c \<and> c \<le> 122) \<or> c = 95"

definition lower_cp :: "nat \<Rightarrow> nat" where
  "lower_cp c = (if 65 \<le> c \<and> c \<le> 90 then c + 32 else c)"

definition upper_cp :: "nat \<Rightarrow> nat" where
  "upper_cp c = (if 97 \<le> c \<and> c \<le> 122 then c - 32 else c)"

definition lower :: "pystr \<Rightarrow> pystr" where
  "lower s = map lower_cp s"

definition upper :: "pystr \<Rightarrow> pystr" where
  "upper s = map upper_cp s"

definition strip :: "pystr \<Rightarrow> pystr" where
  "strip s = rev (dropWhile is_space (rev (dropWhile is_space s)))"

text \<open>\<^verbatim>\<open>s.split()\<close>: the maximal blocks without whitespace, in order.\<close>

fun split_ws_aux :: "pystr \<Rightarrow> pystr \<Rightarrow> pystr list" where
  "split_ws_aux cur [] = (if cur = [] then [] else [cur])"
| "split_ws_aux cur (c # cs) =
     (if is_space c then (if cur = [] then [] else [cur]) @ split_ws_aux [] cs
      else split_ws_aux (cur @ [c]) cs)"

definition split_ws :: "pystr \<Rightarrow> pystr list" where
  "split_ws s = split_ws_aux [] s"

text \<open>\<^verbatim>\<open>s.split(sep)\<close> for a one-character separator: always at least one part.\<close>

fun split_on_aux :: "nat \<Rightarrow> pystr \<Rightarrow> pystr \<Rightarrow> pystr list" where
  "split_on_aux sep cur [] = [cur]"
| "split_on_aux sep cur (c # cs) =
     (if c = sep then cur # split_on_aux sep [] cs else split_on_aux sep (cur @ [c]) cs)"

definition split_on :: "nat \<Rightarrow> pystr \<Rightarrow> pystr list" where
  "split_on sep s = split_on_aux sep [] s"

text \<open>\<^verbatim>\<open>s.split(sep, 1)\<close>: split at the first separator only.\<close>

definition split_once :: "nat \<Rightarrow> pystr \<Rightarrow> pystr list" where
  "split_once sep s =
     (if sep \<in> set s then [takeWhile (\<lambda>c. c \<noteq> sep) s, tl (dropWhile (\<lambda>c. c \<noteq> sep) s)] else [s])"

text \<open>\<^verbatim>\<open>sep.join(parts)\<close>.\<close>

fun join :: "pystr \<Rightarrow> pystr list \<Rightarrow> pystr" where
  "join sep [] = []"
| "join sep [p] = p"
| "join sep (p # q # ps) = p @ sep @ join sep (q # ps)"

text \<open>\<^verbatim>\<open>s.count(sub)\<close> for a non-empty \<open>sub\<close>: non-overlapping occurrences, scanning from the left.\<close>

fun count_sub :: "pystr \<Rightarrow> pystr \<Rightarrow> nat" where
  "count_sub sub [] = 0"
| "count_sub sub (c # cs) =
     (if sub \<noteq> [] \<and> starts_with (c # cs) sub
      then Suc (count_sub sub (drop (length sub - 1) cs))
      else count_sub sub cs)"

text \<open>Decimal text of integers, as \<^verbatim>\<open>str(n)\<close> and f-strings print them.\<close>

fun show_nat :: "nat \<Rightarrow> pystr" where
  "show_nat n = (if n < 10 then [48 + n] else show_nat (n div 10) @ [48 + n mod 10])"

declare show_nat.simps [simp del]

definition show_int :: "int \<Rightarrow> pystr" where
  "show_int i = (if i < 0 then 45 # show_nat (nat (- i)) else show_nat (nat i))"

section \<open>Python floats\<close>

text \<open>
  Python floats are modelled as real numbers with exact arithmetic: rounding error of the
  binary format, infinities and NaN are outside the model.

  \<open>fmt_fixed d x\<close> is \<^verbatim>\<open>format(x, '.df')\<close> for \<open>d > 0\<close>: the magnitude is rounded to \<open>d\<close> decimals
  (ties to even), printed with a sign when \<open>x\<close> is negative.
\<close>

definition round_half_even :: "real \<Rightarrow> int" where
  "round_half_even y =
     (let f = \<lfloor>y\<rfloor>
      in if y - of_int f < 1 / 2 then f
         else if y - of_int f > 1 / 2 then f + 1
         else if even f then f else f + 1)"

definition pad_zeros :: "nat \<Rightarrow> pystr \<Rightarrow> pystr" where
  "pad_zeros d s = replicate (d - length s) 48 @ s"

definition fmt_fixed :: "nat \<Rightarrow> real \<Rightarrow> pystr" where
  "fmt_fixed d x =
     (let q = nat (round_half_even (\<bar>x\<bar> * 10 ^ d))
      in (if x < 0 then [45] else []) @ show_nat (q div 10 ^ d) @ [46]
         @ pad_zeros d (show_nat (q mod 10 ^ d)))"

text \<open>
  The result of \<^verbatim>\<open>x ** (1/n)\<close> for a float \<open>x\<close> and an integer \<open>n > 0\<close>: a float when
  \<open>x\<close> is not negative or the exponent is \<open>1.0\<close>, otherwise the principal complex root.
\<close>

datatype pynum = Fl real | Cx real real

definition py_root :: "real \<Rightarrow> int \<Rightarrow> pynum" where
  "py_root x n =
     (if 0 \<le> x then Fl (x powr (1 / of_int n))
      else if n = 1 then Fl x
      else Cx ((- x) powr (1 / of_int n) * cos (pi / of_int n))
              ((- x) powr (1 / of_int n) * sin (pi / of_int n)))"

fun num_sub :: "pynum \<Rightarrow> real \<Rightarrow> pynum" where
  "num_sub (Fl x) y = Fl (x - y)"
| "num_sub (Cx re im) y = Cx (re - y) im"

fun num_mul :: "pynum \<Rightarrow> real \<Rightarrow> pynum" where
  "num_mul (Fl x) y = Fl (x * y)"
| "num_mul (Cx re im) y = Cx (re * y) (im * y)"

fun fmt_num :: "nat \<Rightarrow> pynum \<Rightarrow> pystr" where
  "fmt_num d (Fl x) = fmt_fixed d x"
| "fmt_num d (Cx re im) =
     fmt_fixed d re @ (if im < 0 then [] else [43]) @ fmt_fixed d im @ [106]"

text \<open>
  \<^verbatim>\<open>int(s)\<close> and \<^verbatim>\<open>float(s)\<close> on text: \<open>None\<close> stands for \<^verbatim>\<open>ValueError\<close>. The decimal
  grammar is modelled (surrounding whitespace, a sign, digits, a point, an exponent);
  digit-group underscores and the words inf and nan are not.
\<close>

definition digits_val :: "pystr \<Rightarrow> nat" where
  "digits_val ds = foldl (\<lambda>a d. 10 * a + (d - 48)) 0 ds"

definition unsigned_int :: "pystr \<Rightarrow> nat option" where
  "unsigned_int s = (if s \<noteq> [] \<and> list_all is_digit s then Some (digits_val s) else None)"

definition split_sign :: "pystr \<Rightarrow> bool \<times> pystr" where
  "split_sign s =
     (case s of [] \<Rightarrow> (False, [])
      | c # cs \<Rightarrow> if c = 45 then (True, cs) else if c = 43 then (False, cs) else (False, s))"

definition py_int :: "pystr \<Rightarrow> int option" where
  "py_int s =
     (let (neg, body) = split_sign (strip s)
      in case unsigned_int body of
           None \<Rightarrow> None
         | Some n \<Rightarrow> Some (if neg then - int n else int n))"

definition mantissa :: "pystr \<Rightarrow> real option" where
  "mantissa s =
     (let ip = takeWhile is_digit s; r = dropWhile is_digit s
      in case r of
           [] \<Rightarrow> (if ip = [] then None else Some (real (digits_val ip)))
         | c # fp \<Rightarrow>
             if c = 46 \<and> list_all is_digit fp \<and> (ip \<noteq> [] \<or> fp \<noteq> [])
             then Some (real (digits_val ip) + real (digits_val fp) / 10 ^ length fp)
             else None)"

definition py_float :: "pystr \<Rightarrow> real option" where
  "py_float s =
     (let (neg, body) = split_sign (strip s);
          m = takeWhile (\<lambda>c. c \<noteq> 101 \<and> c \<noteq> 69) body;
          e = dropWhile (\<lambda>c. c \<noteq> 101 \<and> c \<noteq> 69) body
      in case mantissa m of
           None \<Rightarrow> None
         | Some v \<Rightarrow>
             (case e of
                [] \<Rightarrow> Some (if neg then - v else v)
              | _ # ex \<Rightarrow>
                  (let (eneg, eds) = split_sign ex
                   in case unsigned_int eds of
                        None \<Rightarrow> None
                      | Some k \<Rightarrow>
                          Some ((if neg then - v else v) * (if eneg then 1 / 10 ^ k else 10 ^ k)))))"

section \<open>Regular expressions\<close>

text \<open>
  The patterns of the sources use literals, character classes, bounded and unbounded
  repetition of a class (greedy or lazy), optional parts, groups and word boundaries.
  \<open>rx_match\<close> lists every way a pattern can match at the start of the remaining text, in
  the order in which the backtracking matcher of \<^verbatim>\<open>re\<close> tries them, so the head of the
  list is the match \<^verbatim>\<open>re\<close> reports. A matching state is the groups captured so far, the
  code point before the current position, and the remaining text.
\<close>

datatype rx =
    Lit pystr
  | Cls "nat \<Rightarrow> bool"
  | Rep "nat \<Rightarrow> bool" nat "nat option" bool
  | Seq rx rx
  | Opt rx
  | Grp nat rx
  | WordB

type_synonym rx_state = "(nat \<times> pystr) list \<times> nat option \<times> pystr"

definition lit_prefix :: "bool \<Rightarrow> pystr \<Rightarrow> pystr \<Rightarrow> bool" where
  "lit_prefix ci p s =
     (length p \<le> length s \<and>
      (if ci then lower (take (length p) s) = lower p else take (length p) s = p))"

definition advance :: "nat \<Rightarrow> nat option \<Rightarrow> pystr \<Rightarrow> nat option \<times> pystr" where
  "advance n prev s = (if n = 0 then prev else Some (s ! (n - 1)), drop n s)"

definition rep_counts :: "(nat \<Rightarrow> bool) \<Rightarrow> nat \<Rightarrow> nat option \<Rightarrow> bool \<Rightarrow> pystr \<Rightarrow> nat list" where
  "rep_counts P lo hi greedy s =
     (let m = length (takeWhile P s);
          top = (case hi of None \<Rightarrow> m | Some h \<Rightarrow> min h m);
          ns = [lo ..< Suc top]
      in if greedy then rev ns else ns)"

definition at_boundary :: "nat option \<Rightarrow> pystr \<Rightarrow> bool" where
  "at_boundary prev s =
     ((case prev of None \<Rightarrow> False | Some c \<Rightarrow> is_word c)
       \<noteq> (case s of [] \<Rightarrow> False | c # _ \<Rightarrow> is_word c))"

fun rx_match :: "bool \<Rightarrow> rx \<Rightarrow> rx_state \<Rightarrow> rx_state list" where
  "rx_match ci (Lit p) (g, prev, s) =
     (if lit_prefix ci p s then [(g, advance (length p) prev s)] else [])"
| "rx_match ci (Cls P) (g, prev, s) =
     (case s of [] \<Rightarrow> [] | c # cs \<Rightarrow> if P c then [(g, Some c, cs)] else [])"
| "rx_match ci (Rep P lo hi greedy) (g, prev, s) =
     map (\<lambda>n. (g, advance n prev s)) (rep_counts P lo hi greedy s)"
| "rx_match ci (Seq a b) st = concat (map (rx_match ci b) (rx_match ci a st))"
| "rx_match ci (Opt a) st = rx_match ci a st @ [st]"
| "rx_match ci (Grp i a) (g, prev, s) =
     map (\<lambda>(g', prev', r). (g' @ [(i, take (length s - length r) s)], prev', r))
         (rx_match ci a (g, prev, s))"
| "rx_match ci WordB (g, prev, s) = (if at_boundary prev s then [(g, prev, s)] else [])"

text \<open>\<^verbatim>\<open>re.search\<close>: the first match at the leftmost position that has one.\<close>

fun rx_search_from :: "bool \<Rightarrow> rx \<Rightarrow> nat option \<Rightarrow> pystr \<Rightarrow> rx_state option" where
  "rx_search_from ci r prev s =
     (case rx_match ci r ([], prev, s) of
        st # _ \<Rightarrow> Some st
      | [] \<Rightarrow> (case s of [] \<Rightarrow> None | c # cs \<Rightarrow> rx_search_from ci r (Some c) cs))"

declare rx_search_from.simps [simp del]

definition rx_search :: "bool \<Rightarrow> rx \<Rightarrow> pystr \<Rightarrow> rx_state option" where
  "rx_search ci r s = rx_search_from ci r None s"

definition rx_found :: "bool \<Rightarrow> rx \<Rightarrow> pystr \<Rightarrow> bool" where
  "rx_found ci r s = (rx_search ci r s \<noteq> None)"

text \<open>\<^verbatim>\<open>m.group(i)\<close> of a group that took part in the match (the last capture wins).\<close>

definition group :: "rx_state \<Rightarrow> nat \<Rightarrow> pystr" where
  "group st i = (case map_of (rev (fst st)) i of None \<Rightarrow> [] | Some t \<Rightarrow> t)"

text \<open>
  \<^verbatim>\<open>re.sub(pattern, repl, s)\<close> for a pattern that matches no empty text: the leftmost
  matches, not overlapping, are replaced.
\<close>

fun rx_sub_from :: "bool \<Rightarrow> rx \<Rightarrow> pystr \<Rightarrow> nat option \<Rightarrow> pystr \<Rightarrow> pystr" where
  "rx_sub_from ci r repl prev [] = []"
| "rx_sub_from ci r repl prev (c # cs) =
     (case rx_match ci r ([], prev, c # cs) of
        (g, prev', rest) # _ \<Rightarrow>
          if length rest \<le> length cs then repl @ rx_sub_from ci r repl prev' rest
          else c # rx_sub_from ci r repl (Some c) cs
      | [] \<Rightarrow> c # rx_sub_from ci r repl (Some c) cs)"

definition rx_sub :: "bool \<Rightarrow> rx \<Rightarrow> pystr \<Rightarrow> pystr \<Rightarrow> pystr" where
  "rx_sub ci r repl s = rx_sub_from ci r repl None s"

section \<open>Citations and slide content\<close>

text \<open>
  \<^verbatim>\<open>Citation.source_type\<close> is a string restricted by the dataclass to four values.
  \<^verbatim>\<open>original_value\<close> (of type \<^verbatim>\<open>Any\<close>) is read by no function modelled here and is left out.
\<close>

datatype source_type = Onepager | Calculated | Web | Unverified

record citation =
  slide_num :: nat
  claim :: pystr
  verified :: bool
  source_type :: source_type
  source_reference :: pystr
  line_number :: "nat option"
  line_content :: "pystr option"

text \<open>
  \<^verbatim>\<open>SlideContent\<close>: the \<^verbatim>\<open>sections\<close> dict is the list of its items in insertion
  order (keys distinct); \<^verbatim>\<open>hooks\<close> is a list or \<^verbatim>\<open>None\<close>.
\<close>

record slide_content =
  title :: pystr
  sections :: "(pystr \<times> pystr list) list"
  metrics :: "(pystr \<times> pystr) list"
  hooks :: "pystr list option"

section \<open>Filtering to verified content (\<^verbatim>\<open>KelpPipeline._filter_verified\<close>)\<close>

definition is_verified :: "citation list \<Rightarrow> pystr \<Rightarrow> bool" where
  "is_verified cs item =
     list_ex (\<lambda>c. verified c \<and> (claim c = item \<or> str_in item (claim c) \<or> str_in (claim c) item)) cs"

definition filter_section ::
  "citation list \<Rightarrow> pystr \<times> pystr list \<Rightarrow> (pystr \<times> pystr list) list \<Rightarrow> (pystr \<times> pystr list) list" where
  "filter_section cs entry verified_sections =
     (let verified_items = filter (is_verified cs) (snd entry)
      in if verified_items \<noteq> [] then AList.update (fst entry) verified_items verified_sections
         else verified_sections)"

definition filter_hooks :: "citation list \<Rightarrow> pystr list option \<Rightarrow> pystr list option" where
  "filter_hooks cs hs =
     (let verified_hooks = (case hs of None \<Rightarrow> [] | Some l \<Rightarrow> filter (is_verified cs) l)
      in if verified_hooks \<noteq> [] then Some verified_hooks else None)"

definition filter_slide :: "citation list \<Rightarrow> slide_content \<Rightarrow> slide_content" where
  "filter_slide cs slide =
     \<lparr> title = title slide,
       sections = fold (filter_section cs) (sections slide) [],
       metrics = metrics slide,
       hooks = filter_hooks cs (hooks slide) \<rparr>"

definition filter_verified :: "citation list \<Rightarrow> slide_content list \<Rightarrow> slide_content list" where
  "filter_verified cs slides = map (filter_slide cs) slides"

text \<open>The items of a section, and the hooks, of a slide (nothing when absent).\<close>

definition section_items :: "slide_content \<Rightarrow> pystr \<Rightarrow> pystr list" where
  "section_items slide name = (case map_of (sections slide) name of None \<Rightarrow> [] | Some its \<Rightarrow> its)"

definition hook_items :: "slide_content \<Rightarrow> pystr list" where
  "hook_items slide = (case hooks slide of None \<Rightarrow> [] | Some l \<Rightarrow> l)"


text \<open>A small slide and citation list for concrete evaluation.\<close>

definition demo_citations :: "citation list" where
  "demo_citations =
     [\<lparr> slide_num = 1, claim = asc ''Pumps and valves'', verified = True, source_type = Onepager,
        source_reference = asc ''Line 3: Pumps and valves'', line_number = Some 3,
        line_content = Some (asc ''Pumps and valves'') \<rparr>,
      \<lparr> slide_num = 1, claim = asc ''ISO 9001'', verified = False, source_type = Unverified,
        source_reference = asc ''No matching source found in one-pager'', line_number = None,
        line_content = None \<rparr>]"

definition demo_slide :: slide_content where
  "demo_slide =
     \<lparr> title = asc ''Business Profile'',
       sections = [(asc ''Products'', [asc ''Pumps'', asc ''Gears'']),
                   (asc ''Certifications'', [asc ''ISO 9001''])],
       metrics = [],
       hooks = Some [asc ''Valves''] \<rparr>"

section \<open>Source data of the citation verifier\<close>

text \<open>
  \<^verbatim>\<open>extracted_data\<close> is a nested structure of dicts, lists, strings and numbers; a dict is
  the list of its items in insertion order. Keys are strings or integers (the financial
  series are keyed by year).
\<close>

datatype pykey = KStr pystr | KInt int

datatype pyval =
    VStr pystr
  | VNum real
  | VNone
  | VList "pyval list"
  | VDict "(pykey \<times> pyval) list"

type_synonym pydict = "(pykey \<times> pyval) list"

type_synonym series = "(int \<times> real) list"

datatype pyerr = ValueError | IndexError

text \<open>
  \<^verbatim>\<open>d.get(k, {})\<close> where a dict is expected, and the reading of a financial series: a dict
  from integer years to floats, as \<^verbatim>\<open>DataExtractor\<close> builds it. Entries of another shape
  are not part of a series.
\<close>

definition get_dict :: "pydict \<Rightarrow> pystr \<Rightarrow> pydict" where
  "get_dict d k = (case map_of d (KStr k) of Some (VDict x) \<Rightarrow> x | _ \<Rightarrow> [])"

fun series_of :: "pydict \<Rightarrow> series" where
  "series_of [] = []"
| "series_of ((KInt y, VNum x) # kvs) = (y, x) # series_of kvs"
| "series_of (_ # kvs) = series_of kvs"

definition has_year :: "series \<Rightarrow> int \<Rightarrow> bool" where
  "has_year s y = (y \<in> set (map fst s))"

definition at_year :: "series \<Rightarrow> int \<Rightarrow> real" where
  "at_year s y = the (map_of s y)"

text \<open>
  \<^verbatim>\<open>web_data\<close>: the \<^verbatim>\<open>market_data\<close> dict (absent or empty is \<open>None\<close>) with its sources, which
  are objects with \<^verbatim>\<open>source_name\<close>/\<^verbatim>\<open>source_url\<close> attributes, dicts with optional
  \<^verbatim>\<open>name\<close>/\<^verbatim>\<open>url\<close>, or something else; and the scraped pages of \<^verbatim>\<open>company_info\<close>, each a
  dict with optional \<^verbatim>\<open>content\<close> and \<^verbatim>\<open>url\<close>, or something else.
\<close>

datatype web_source = SrcObj pystr pystr | SrcDict "pystr option" "pystr option" | SrcOther

record market_data =
  md_sources :: "web_source list"
  india_market_size :: "pystr option"
  md_cagr :: "pystr option"
  key_drivers :: "pystr list"

datatype page_data = PageDict "pystr option" "pystr option" | PageOther

record web_data =
  market :: "market_data option"
  company_info :: "(pystr \<times> page_data) list"

record verifier =
  citations :: "citation list"
  md_lines :: "pystr list"
  extracted_data :: pydict
  web :: web_data

section \<open>The citation verifier (\<^verbatim>\<open>CitationVerifier\<close>)\<close>

definition mk_citation :: "nat \<Rightarrow> pystr \<Rightarrow> bool \<Rightarrow> source_type \<Rightarrow> pystr \<Rightarrow> citation" where
  "mk_citation sn cl ok ty ref =
     \<lparr> slide_num = sn, claim = cl, verified = ok, source_type = ty, source_reference = ref,
       line_number = None, line_content = None \<rparr>"

subsection \<open>Kind dispatch patterns\<close>

definition dot :: "nat \<Rightarrow> bool" where
  "dot c = (c \<noteq> 10)"

definition calculated_patterns :: "rx list" where
  "calculated_patterns =
     [Lit (asc ''CAGR''),
      Lit (asc ''Margin''),
      Seq (Rep is_digit 1 None True)
        (Seq (Opt (Grp 1 (Seq (Lit (asc ''.'')) (Rep is_digit 1 None True))))
          (Seq (Lit (asc ''%'')) (Seq (Rep dot 0 None True) (Lit (asc ''CAGR''))))),
      Lit (asc ''Revenue CAGR''),
      Lit (asc ''EBITDA Margin'')]"

definition is_calculated_claim :: "pystr \<Rightarrow> bool" where
  "is_calculated_claim cl = list_ex (\<lambda>p. rx_found True p cl) calculated_patterns"

definition web_patterns :: "rx list" where
  "web_patterns =
     [Lit (asc ''Industry Size''),
      Lit (asc ''Industry Growth''),
      Lit (asc ''Market Size''),
      Seq (Lit (asc ''$'')) (Seq (Rep is_digit 1 None True)
        (Seq (Rep dot 0 None True) (Lit (asc ''billion'')))),
      Lit (asc ''Positioned for'')]"

definition is_web_claim :: "pystr \<Rightarrow> bool" where
  "is_web_claim cl = list_ex (\<lambda>p. rx_found True p cl) web_patterns"

subsection \<open>Calculated values (\<^verbatim>\<open>_verify_calculated\<close>)\<close>

definition nl :: pystr where
  "nl = [10]"

text \<open>The reference of a CAGR citation: formula, substituted inputs, result.\<close>

definition cagr_text :: "int \<Rightarrow> int \<Rightarrow> real \<Rightarrow> real \<Rightarrow> int \<Rightarrow> pystr" where
  "cagr_text start_yr end_yr start_val end_val n =
     (let cagr = num_mul (num_sub (py_root (end_val / start_val) n) 1) 100;
          formula = asc ''CAGR = ((FY'' @ show_int end_yr @ asc ''_Revenue / FY''
             @ show_int start_yr @ asc ''_Revenue)^(1/'' @ show_int n @ asc '') - 1) ''
             @ [times_sign] @ asc '' 100'';
          calculation = asc ''= (('' @ fmt_fixed 2 end_val @ asc '' / ''
             @ fmt_fixed 2 start_val @ asc '')^(1/'' @ show_int n @ asc '') - 1) ''
             @ [times_sign] @ asc '' 100'';
          result = asc ''= '' @ fmt_num 1 cagr @ asc ''%''
      in formula @ nl @ calculation @ nl @ result)"

definition cagr_citation :: "nat \<Rightarrow> pystr \<Rightarrow> series \<Rightarrow> citation option" where
  "cagr_citation sn cl revenue =
     (if 2 \<le> length revenue then
        (let years = sort (map fst revenue);
             start_yr = hd years; end_yr = last years;
             start_val = at_year revenue start_yr; end_val = at_year revenue end_yr;
             n = end_yr - start_yr
         in if start_val > 0 \<and> n > 0 then
              Some (mk_citation sn cl True Calculated (cagr_text start_yr end_yr start_val end_val n))
            else None)
      else None)"

text \<open>The reference of a margin citation.\<close>

definition margin_text :: "int \<Rightarrow> real \<Rightarrow> real \<Rightarrow> pystr" where
  "margin_text yr ebitda_val revenue_val =
     (let margin = (ebitda_val / revenue_val) * 100;
          formula = asc ''EBITDA Margin = (FY'' @ show_int yr @ asc ''_EBITDA / FY''
             @ show_int yr @ asc ''_Revenue) '' @ [times_sign] @ asc '' 100'';
          calculation = asc ''= ('' @ fmt_fixed 2 ebitda_val @ asc '' / ''
             @ fmt_fixed 2 revenue_val @ asc '') '' @ [times_sign] @ asc '' 100'';
          result = asc ''= '' @ fmt_fixed 1 margin @ asc ''%''
      in formula @ nl @ calculation @ nl @ result)"

definition margin_citation :: "nat \<Rightarrow> pystr \<Rightarrow> series \<Rightarrow> series \<Rightarrow> citation option" where
  "margin_citation sn cl ebitda revenue =
     (if ebitda \<noteq> [] \<and> revenue \<noteq> [] then
        (let common = filter (has_year revenue) (map fst ebitda)
         in if common \<noteq> [] then
              (let yr = Max (set common)
               in if at_year revenue yr > 0 then
                    Some (mk_citation sn cl True Calculated
                           (margin_text yr (at_year ebitda yr) (at_year revenue yr)))
                  else None)
            else None)
      else None)"

definition fy_pattern :: rx where
  "fy_pattern =
     Seq (Lit (asc ''FY'')) (Seq (Grp 1 (Rep is_digit 2 (Some 4) True))
       (Seq (Rep dot 0 None False) (Seq (Opt (Lit [rupee]))
         (Seq (Grp 2 (Rep (\<lambda>c. is_digit c \<or> c = 46) 1 None True))
           (Seq (Rep is_space 0 None True) (Lit (asc ''Cr'')))))))"

definition not_verified_calculated :: "nat \<Rightarrow> pystr \<Rightarrow> citation" where
  "not_verified_calculated sn cl =
     mk_citation sn cl False Unverified (asc ''Calculated value not verified'')"

definition fy_citation :: "nat \<Rightarrow> pystr \<Rightarrow> series \<Rightarrow> series \<Rightarrow> pyerr + citation" where
  "fy_citation sn cl revenue ebitda =
     (case rx_search False fy_pattern cl of
        None \<Rightarrow> Inr (not_verified_calculated sn cl)
      | Some fy_match \<Rightarrow>
          (let year_str = group fy_match 1
           in case py_float (group fy_match 2) of
                None \<Rightarrow> Inl ValueError
              | Some val \<Rightarrow>
                  (case py_int year_str of
                     None \<Rightarrow> Inl ValueError
                   | Some y \<Rightarrow>
                       (let year = (if length year_str = 2 then 2000 + y else y)
                        in if has_year revenue year \<and> \<bar>at_year revenue year - val\<bar> < 1 then
                             Inr (mk_citation sn cl True Onepager
                                   (asc ''Financial data: Revenue FY'' @ show_int year @ asc '' = ''
                                    @ [rupee] @ fmt_fixed 2 (at_year revenue year) @ asc '' Cr''))
                           else if has_year ebitda year \<and> \<bar>at_year ebitda year - val\<bar> < 1 then
                             Inr (mk_citation sn cl True Onepager
                                   (asc ''Financial data: EBITDA FY'' @ show_int year @ asc '' = ''
                                    @ [rupee] @ fmt_fixed 2 (at_year ebitda year) @ asc '' Cr''))
                           else Inr (not_verified_calculated sn cl)))))"

definition calculated_of :: "nat \<Rightarrow> pystr \<Rightarrow> series \<Rightarrow> series \<Rightarrow> pyerr + citation" where
  "calculated_of sn cl revenue ebitda =
     (case (if str_in (asc ''CAGR'') cl then cagr_citation sn cl revenue else None) of
        Some c \<Rightarrow> Inr c
      | None \<Rightarrow>
          (case (if str_in (asc ''Margin'') cl then margin_citation sn cl ebitda revenue else None) of
             Some c \<Rightarrow> Inr c
           | None \<Rightarrow> fy_citation sn cl revenue ebitda))"

definition verify_calculated :: "verifier \<Rightarrow> nat \<Rightarrow> pystr \<Rightarrow> pyerr + citation" where
  "verify_calculated v sn cl =
     (let financials = get_dict (extracted_data v) (asc ''financials'');
          revenue = series_of (get_dict financials (asc ''revenue''));
          ebitda = series_of (get_dict financials (asc ''ebitda''))
      in calculated_of sn cl revenue ebitda)"

subsection \<open>Web data (\<^verbatim>\<open>_verify_web_data\<close>)\<close>

definition truthy :: "pystr option \<Rightarrow> bool" where
  "truthy x = (case x of None \<Rightarrow> False | Some s \<Rightarrow> s \<noteq> [])"

definition or_default :: "pystr option \<Rightarrow> pystr \<Rightarrow> pystr" where
  "or_default x d = (case x of None \<Rightarrow> d | Some s \<Rightarrow> s)"

fun source_urls :: "web_source list \<Rightarrow> pystr list" where
  "source_urls [] = []"
| "source_urls (SrcObj name url # srcs) = (asc ''['' @ name @ asc '']('' @ url @ asc '')'') # source_urls srcs"
| "source_urls (SrcDict name url # srcs) =
     (asc ''['' @ or_default name (asc ''Source'') @ asc '']('' @ or_default url (asc ''#'') @ asc '')'')
       # source_urls srcs"
| "source_urls (SrcOther # srcs) = source_urls srcs"

definition market_citation :: "nat \<Rightarrow> pystr \<Rightarrow> market_data \<Rightarrow> citation option" where
  "market_citation sn cl m =
     (let urls = source_urls (md_sources m);
          source_ref = (if urls \<noteq> [] then join nl urls else asc ''Industry estimates'')
      in if (str_in (asc ''Market Size'') cl \<or> str_in (asc ''Industry Size'') cl \<or> str_in (asc ''$'') cl)
            \<and> truthy (india_market_size m)
         then Some (mk_citation sn cl True Web
                (asc ''Data: India market size = '' @ the (india_market_size m) @ nl
                 @ asc ''Sources:'' @ nl @ source_ref))
         else if (str_in (asc ''Growth'') cl \<or> str_in (asc ''CAGR'') (upper cl)) \<and> truthy (md_cagr m)
         then Some (mk_citation sn cl True Web
                (asc ''Data: Industry CAGR = '' @ the (md_cagr m) @ nl
                 @ asc ''Sources:'' @ nl @ source_ref))
         else if (str_in (asc ''Positioned for'') cl \<or> str_in (asc ''driven by'') (lower cl))
                 \<and> key_drivers m \<noteq> []
         then Some (mk_citation sn cl True Web
                (asc ''Industry drivers: '' @ join (asc '', '') (key_drivers m) @ nl
                 @ asc ''Sources:'' @ nl @ source_ref))
         else None)"

fun page_citation :: "nat \<Rightarrow> pystr \<Rightarrow> (pystr \<times> page_data) list \<Rightarrow> citation option" where
  "page_citation sn cl [] = None"
| "page_citation sn cl ((page_type, PageDict (Some content) url) # pages) =
     (if list_ex (\<lambda>word. str_in word (lower content)) (take 3 (split_ws (lower cl)))
      then Some (mk_citation sn cl True Web
             (asc ''Source: Company Website - '' @ page_type @ nl
              @ asc ''URL: '' @ or_default url (asc ''N/A'')))
      else page_citation sn cl pages)"
| "page_citation sn cl (_ # pages) = page_citation sn cl pages"

definition verify_web_data :: "verifier \<Rightarrow> nat \<Rightarrow> pystr \<Rightarrow> citation" where
  "verify_web_data v sn cl =
     (case (case market (web v) of None \<Rightarrow> None | Some m \<Rightarrow> market_citation sn cl m) of
        Some c \<Rightarrow> c
      | None \<Rightarrow>
          (case page_citation sn cl (company_info (web v)) of
             Some c \<Rightarrow> c
           | None \<Rightarrow> mk_citation sn cl False Unverified (asc ''Web data not found'')))"

subsection \<open>The one-pager (\<^verbatim>\<open>_verify_onepager\<close>)\<close>

definition is_markup :: "nat \<Rightarrow> bool" where
  "is_markup c \<longleftrightarrow> c = 42 \<or> c = 95 \<or> c = 35 \<or> c = 45 \<or> c = 124 \<or> c = 96"

text \<open>\<^verbatim>\<open>re.sub(r'\s+', ' ', text)\<close>: each maximal run of whitespace becomes one space.\<close>

fun collapse_ws :: "pystr \<Rightarrow> pystr" where
  "collapse_ws [] = []"
| "collapse_ws [c] = (if is_space c then [32] else [c])"
| "collapse_ws (c # d # cs) =
     (if is_space c then (if is_space d then collapse_ws (d # cs) else 32 # collapse_ws (d # cs))
      else c # collapse_ws (d # cs))"

definition clean_for_matching :: "pystr \<Rightarrow> pystr" where
  "clean_for_matching text =
     (if text = [] then []
      else strip (lower (collapse_ws (filter (\<lambda>c. \<not> is_markup c) text))))"

text \<open>
  The key under which a flattened field is reported: a key is formatted into the dotted path
  only below a non-empty parent (\<^verbatim>\<open>if parent_key\<close>).
\<close>

fun key_str :: "pykey \<Rightarrow> pystr" where
  "key_str (KStr s) = s"
| "key_str (KInt i) = show_int i"

fun key_truthy :: "pykey \<Rightarrow> bool" where
  "key_truthy (KStr s) = (s \<noteq> [])"
| "key_truthy (KInt i) = (i \<noteq> 0)"

definition new_key :: "pykey \<Rightarrow> pykey \<Rightarrow> pykey" where
  "new_key parent k = (if key_truthy parent then KStr (key_str parent @ asc ''.'' @ key_str k) else k)"

definition idx_key :: "pykey \<Rightarrow> nat \<Rightarrow> pykey" where
  "idx_key k i = KStr (key_str k @ asc ''['' @ show_nat i @ asc '']'')"

fun flatten_dict :: "pydict \<Rightarrow> pykey \<Rightarrow> (pykey \<times> pyval) list"
  and flatten_value :: "pykey \<Rightarrow> pyval \<Rightarrow> (pykey \<times> pyval) list"
  and flatten_list :: "pykey \<Rightarrow> nat \<Rightarrow> pyval list \<Rightarrow> (pykey \<times> pyval) list"
  and flatten_item :: "pykey \<Rightarrow> pyval \<Rightarrow> (pykey \<times> pyval) list"
where
  "flatten_dict [] parent = []"
| "flatten_dict ((k, v) # kvs) parent = flatten_value (new_key parent k) v @ flatten_dict kvs parent"
| "flatten_value key (VDict d) = flatten_dict d key"
| "flatten_value key (VList l) = flatten_list key 0 l"
| "flatten_value key (VStr s) = [(key, VStr s)]"
| "flatten_value key (VNum x) = [(key, VNum x)]"
| "flatten_value key VNone = [(key, VNone)]"
| "flatten_list key i [] = []"
| "flatten_list key i (item # items) = flatten_item (idx_key key i) item @ flatten_list key (Suc i) items"
| "flatten_item key (VDict d) = flatten_dict d key"
| "flatten_item key (VList l) = [(key, VList l)]"
| "flatten_item key (VStr s) = [(key, VStr s)]"
| "flatten_item key (VNum x) = [(key, VNum x)]"
| "flatten_item key VNone = [(key, VNone)]"

text \<open>One pass of the loop over the lines: the state is \<^verbatim>\<open>(best_match, best_score)\<close>.\<close>

definition line_step ::
  "pystr \<Rightarrow> nat \<times> pystr \<Rightarrow> (nat \<times> pystr) option \<times> real \<Rightarrow> (nat \<times> pystr) option \<times> real" where
  "line_step clean_claim numbered best =
     (let clean_line = clean_for_matching (snd numbered);
          best1 =
            (if str_in clean_claim clean_line \<or> str_in clean_line clean_claim then
               (let score = real (length clean_claim) / real (max (length clean_line) 1)
                in if score > snd best then (Some numbered, score) else best)
             else best);
          claim_words = remdups (split_ws clean_claim);
          line_words = remdups (split_ws clean_line)
      in if length claim_words > 2 then
           (let overlap = real (length (filter (\<lambda>w. w \<in> set line_words) claim_words))
                            / real (length claim_words)
            in if overlap > 1 / 2 \<and> overlap > snd best1 then (Some numbered, overlap) else best1)
         else best1)"

definition best_line :: "pystr list \<Rightarrow> pystr \<Rightarrow> (nat \<times> pystr) option \<times> real" where
  "best_line lines clean_claim =
     fold (line_step clean_claim) (zip [1 ..< Suc (length lines)] lines) (None, 0)"

fun field_citation :: "nat \<Rightarrow> pystr \<Rightarrow> pystr \<Rightarrow> (pykey \<times> pyval) list \<Rightarrow> citation option" where
  "field_citation sn cl clean_claim [] = None"
| "field_citation sn cl clean_claim ((field_name, VStr field_value) # flds) =
     (let clean_field = clean_for_matching field_value
      in if str_in clean_claim clean_field \<or> str_in clean_field clean_claim
         then Some (mk_citation sn cl True Onepager (asc ''Field: '' @ key_str field_name))
         else field_citation sn cl clean_claim flds)"
| "field_citation sn cl clean_claim (_ # flds) = field_citation sn cl clean_claim flds"

definition verify_onepager :: "verifier \<Rightarrow> nat \<Rightarrow> pystr \<Rightarrow> citation" where
  "verify_onepager v sn cl =
     (let clean_claim = clean_for_matching cl;
          best = best_line (md_lines v) clean_claim
      in case fst best of
           Some (line_num, line) \<Rightarrow>
             if snd best > 3 / 10 then
               \<lparr> slide_num = sn, claim = cl, verified = True, source_type = Onepager,
                 source_reference = asc ''Line '' @ show_nat line_num @ asc '': '' @ strip line,
                 line_number = Some line_num, line_content = Some (strip line) \<rparr>
             else
               (case field_citation sn cl clean_claim (flatten_dict (extracted_data v) (KStr [])) of
                  Some c \<Rightarrow> c
                | None \<Rightarrow> mk_citation sn cl False Unverified
                            (asc ''No matching source found in one-pager''))
         | None \<Rightarrow>
             (case field_citation sn cl clean_claim (flatten_dict (extracted_data v) (KStr [])) of
                Some c \<Rightarrow> c
              | None \<Rightarrow> mk_citation sn cl False Unverified
                          (asc ''No matching source found in one-pager'')))"

subsection \<open>Dispatch (\<^verbatim>\<open>_verify_claim\<close>) and the slide loop (\<^verbatim>\<open>verify_slide_content\<close>)\<close>

definition verify_claim :: "verifier \<Rightarrow> nat \<Rightarrow> pystr \<Rightarrow> pyerr + citation" where
  "verify_claim v sn cl =
     (if cl = [] \<or> length (strip cl) < 3 then
        Inr (mk_citation sn cl False Unverified (asc ''Empty or too short''))
      else if is_calculated_claim cl then verify_calculated v sn cl
      else if is_web_claim cl then Inr (verify_web_data v sn cl)
      else Inr (verify_onepager v sn cl))"

text \<open>
  The loop over the claims of a slide appends each citation to the slide's list and to
  \<^verbatim>\<open>self.citations\<close>; an exception raised by one claim leaves the loop.
\<close>

fun verify_items ::
  "verifier \<Rightarrow> nat \<Rightarrow> pystr list \<Rightarrow> citation list \<Rightarrow> pyerr + (citation list \<times> verifier)" where
  "verify_items v sn [] slide_citations = Inr (slide_citations, v)"
| "verify_items v sn (item # items) slide_citations =
     (case verify_claim v sn item of
        Inl e \<Rightarrow> Inl e
      | Inr c \<Rightarrow> verify_items (v\<lparr>citations := citations v @ [c]\<rparr>) sn items (slide_citations @ [c]))"

definition verify_slide_content ::
  "verifier \<Rightarrow> nat \<Rightarrow> slide_content \<Rightarrow> pyerr + (citation list \<times> verifier)" where
  "verify_slide_content v sn slide =
     (case verify_items v sn (concat (map snd (sections slide))) [] of
        Inl e \<Rightarrow> Inl e
      | Inr (slide_citations, v') \<Rightarrow>
          (case hooks slide of
             None \<Rightarrow> Inr (slide_citations, v')
           | Some hs \<Rightarrow> verify_items v' sn hs slide_citations))"

section \<open>Financial rows (\<^verbatim>\<open>DataExtractor._parse_financial_row\<close>)\<close>

text \<open>
  The builtins \<^verbatim>\<open>int\<close> and \<^verbatim>\<open>float\<close> are parameters of the model (\<open>int_of\<close>, \<open>float_of\<close>;
  \<open>None\<close> stands for \<^verbatim>\<open>ValueError\<close>), so that nothing here depends on which texts they
  accept. One entry of a row: \<open>None\<close> covers every way the loop body stores nothing, that is
  no colon, an \<^verbatim>\<open>int\<close> or \<^verbatim>\<open>float\<close> that raises (caught, \<^verbatim>\<open>continue\<close>), an empty value or
  the word none.
\<close>

definition parse_entry ::
  "(pystr \<Rightarrow> int option) \<Rightarrow> (pystr \<Rightarrow> real option) \<Rightarrow> bool \<Rightarrow> pystr \<Rightarrow> (int \<times> real) option" where
  "parse_entry int_of float_of convert_to_cr raw =
     (let entry = strip raw
      in if 58 \<in> set entry then
           (let parts = split_once 58 entry
            in if length parts = 2 then
                 (case int_of (strip (parts ! 0)) of
                    None \<Rightarrow> None
                  | Some year \<Rightarrow>
                      (let value_str = strip (parts ! 1)
                       in if lower value_str \<noteq> asc ''none'' \<and> value_str \<noteq> [] then
                            (case float_of value_str of
                               None \<Rightarrow> None
                             | Some val \<Rightarrow>
                                 Some (year, if convert_to_cr \<and> val > 100 then val / 100 else val))
                          else None))
               else None)
         else None)"

definition store_entry ::
  "(pystr \<Rightarrow> int option) \<Rightarrow> (pystr \<Rightarrow> real option) \<Rightarrow> bool \<Rightarrow> pystr \<Rightarrow> series \<Rightarrow> series" where
  "store_entry int_of float_of convert_to_cr raw data =
     (case parse_entry int_of float_of convert_to_cr raw of
        None \<Rightarrow> data
      | Some (year, val) \<Rightarrow> AList.update year val data)"

definition parse_financial_row ::
  "(pystr \<Rightarrow> int option) \<Rightarrow> (pystr \<Rightarrow> real option) \<Rightarrow> pystr \<Rightarrow> bool \<Rightarrow> series" where
  "parse_financial_row int_of float_of row_data convert_to_cr =
     fold (store_entry int_of float_of convert_to_cr) (split_on 124 row_data) []"

text \<open>
  The reading of an entry in the words of the specification: up to the first colon an
  integer year, after it a float value that is neither empty nor the word none (whitespace
  around the entry and around either part is dropped).
\<close>

definition entry_reads ::
  "(pystr \<Rightarrow> int option) \<Rightarrow> (pystr \<Rightarrow> real option) \<Rightarrow> pystr \<Rightarrow> int \<Rightarrow> real \<Rightarrow> bool" where
  "entry_reads int_of float_of raw y x \<longleftrightarrow>
     (\<exists>ys vs. strip raw = ys @ 58 # vs \<and> 58 \<notin> set ys \<and> int_of (strip ys) = Some y
        \<and> strip vs \<noteq> [] \<and> lower (strip vs) \<noteq> asc ''none'' \<and> float_of (strip vs) = Some x)"

definition to_crores :: "bool \<Rightarrow> real \<Rightarrow> real" where
  "to_crores convert_to_cr x = (if convert_to_cr \<and> x > 100 then x / 100 else x)"

definition demo_row :: pystr where
  "demo_row = asc ''2014: 4251.81863 | 2015: 87.5 | 2016: None | x: 3 | 2017: 12a |2018:250''"

section \<open>Keyword classification (\<^verbatim>\<open>DomainClassifier._classify_with_keywords\<close>)\<close>

text \<open>\<^verbatim>\<open>DOMAIN_KEYWORDS\<close>: domain key, display name, keywords, in the order of the dict.\<close>

definition DOMAIN_KEYWORDS :: "(pystr \<times> pystr \<times> pystr list) list" where
  "DOMAIN_KEYWORDS =
     [(asc ''manufacturing'', asc ''Manufacturing & Industrials'',
        map asc [''manufacturing'', ''production'', ''plant'', ''facility'', ''industrial'',
                 ''oem'', ''b2b'', ''fabrication'', ''assembly'', ''machining'', ''factory'',
                 ''electronics'', ''components'', ''hardware'']),
      (asc ''technology'', asc ''Technology & IT Services'',
        map asc [''software'', ''saas'', ''platform'', ''cloud'', ''digital'', ''ai'', ''ml'',
                 ''development'', ''consulting'', ''integration'', ''it services'', ''tech'',
                 ''data'', ''analytics'', ''salesforce'', ''odoo'', ''erp'', ''crm'']),
      (asc ''logistics'', asc ''Logistics & Supply Chain'',
        map asc [''logistics'', ''supply chain'', ''warehousing'', ''transportation'',
                 ''distribution'', ''freight'', ''3pl'', ''last mile'', ''express'', ''delivery'',
                 ''shipping'', ''cargo'', ''courier'']),
      (asc ''consumer'', asc ''Consumer Brands (D2C/B2C)'',
        map asc [''brand'', ''consumer'', ''d2c'', ''e-commerce'', ''retail'', ''wellness'',
                 ''fmcg'', ''marketplace'', ''lifestyle'', ''personal care'', ''food'',
                 ''beverage'', ''fashion'', ''beauty'']),
      (asc ''healthcare'', asc ''Healthcare & Pharma'',
        map asc [''pharma'', ''pharmaceutical'', ''healthcare'', ''medical'', ''biotech'',
                 ''diagnostics'', ''hospital'', ''therapeutic'', ''formulation'', ''drug'',
                 ''medicine'', ''clinical'', ''api'', ''generic'']),
      (asc ''infrastructure'', asc ''Infrastructure & Real Estate'',
        map asc [''construction'', ''infrastructure'', ''real estate'', ''developer'',
                 ''epc'', ''project'', ''contractor'', ''builder'', ''roads'', ''bridges'',
                 ''housing'', ''commercial'']),
      (asc ''chemicals'', asc ''Chemicals & Specialty Materials'',
        map asc [''chemical'', ''polymer'', ''resin'', ''specialty'', ''formulation'',
                 ''additive'', ''coating'', ''petrochemical'', ''industrial chemicals'',
                 ''paints'', ''adhesives'']),
      (asc ''automotive'', asc ''Automotive & Components'',
        map asc [''automotive'', ''auto components'', ''forging'', ''casting'', ''oem'',
                 ''tier-1'', ''aftermarket'', ''vehicle'', ''car'', ''truck'', ''two-wheeler'',
                 ''engine'', ''transmission''])]"

text \<open>
  The inner loop over the keywords of one domain: the score is the sum of the counts, the
  matched keywords are those that occur.
\<close>

fun score_keywords :: "pystr \<Rightarrow> pystr list \<Rightarrow> nat \<times> pystr list \<Rightarrow> nat \<times> pystr list" where
  "score_keywords text_lower [] acc = acc"
| "score_keywords text_lower (keyword # keywords) (score, matched) =
     (let n = count_sub (lower keyword) text_lower
      in if n > 0 then score_keywords text_lower keywords (score + n, matched @ [keyword])
         else score_keywords text_lower keywords (score, matched))"

definition domain_scores :: "pystr \<Rightarrow> (pystr \<times> nat \<times> pystr list) list" where
  "domain_scores text_lower =
     map (\<lambda>(domain_key, name, keywords). (domain_key, score_keywords text_lower keywords (0, [])))
         DOMAIN_KEYWORDS"

text \<open>\<^verbatim>\<open>max(scores, key=...)\<close>: the first key whose score is maximal.\<close>

fun first_max :: "pystr \<times> nat \<times> pystr list \<Rightarrow> (pystr \<times> nat \<times> pystr list) list
    \<Rightarrow> pystr \<times> nat \<times> pystr list" where
  "first_max best [] = best"
| "first_max best (e # es) = (if fst (snd e) > fst (snd best) then first_max e es else first_max best es)"

text \<open>The body of the function after \<^verbatim>\<open>text_lower = text.lower()\<close>.\<close>

definition classify_lowered :: "pystr \<Rightarrow> pystr \<times> real \<times> pystr" where
  "classify_lowered text_lower =
     (let scores = domain_scores text_lower;
          (best_domain, best_score, matched) = first_max (hd scores) (tl scores);
          total_score = sum_list (map (\<lambda>e. fst (snd e)) scores);
          confidence = (if total_score > 0
                        then min (9 / 10) (real best_score / real total_score + 3 / 10)
                        else 1 / 2);
          reasoning = asc ''Keyword matches: '' @ join (asc '', '') (take 5 matched)
      in (best_domain, confidence, reasoning))"

definition classify_with_keywords :: "pystr \<Rightarrow> pystr \<times> real \<times> pystr" where
  "classify_with_keywords text = classify_lowered (lower text)"

definition domain_keys :: "pystr list" where
  "domain_keys = map fst DOMAIN_KEYWORDS"

text \<open>The total keyword count of a domain in a lowered text, and the sum over the domains.\<close>

definition domain_score :: "pystr \<Rightarrow> pystr \<Rightarrow> nat" where
  "domain_score text_lower domain_key =
     (case map_of DOMAIN_KEYWORDS domain_key of
        None \<Rightarrow> 0
      | Some (name, keywords) \<Rightarrow> sum_list (map (\<lambda>kw. count_sub (lower kw) text_lower) keywords))"

definition total_score :: "pystr \<Rightarrow> nat" where
  "total_score text_lower = sum_list (map (domain_score text_lower) domain_keys)"

definition demo_text :: pystr where
  "demo_text = asc ''CRM car''"

section \<open>Slide 1 of the content writer (\<^verbatim>\<open>ContentWriter._generate_slide_1\<close>)\<close>

text \<open>
  The writer holds the company name and the text-generation collaborator. The collaborator
  is a parameter: \<open>None\<close> when it is not available, otherwise the function from a
  prompt to the generated text (\<open>None\<close> when nothing is generated). The token counter it
  feeds is not part of the slide and is left out.
\<close>

record writer =
  company_name :: pystr
  ollama :: "(pystr \<Rightarrow> pystr option) option"

text \<open>The fields of the extracted data that slide 1 reads.\<close>

datatype industries = IndustryText pystr | IndustryList "pystr list"

record company_data =
  business_description :: pystr
  products_services :: "pystr list"
  industries_served :: industries
  key_operational_indicators :: "pystr list"
  certifications :: "pystr list"
  founded :: pystr
  employees :: pystr

subsection \<open>\<^verbatim>\<open>_anonymize\<close>\<close>

definition the_company :: pystr where
  "the_company = asc ''The Company''"

text \<open>
  The patterns built from the company name: the escaped name and its first word. The first
  word of a name made of whitespace only does not exist (\<^verbatim>\<open>split()[0]\<close> raises).
\<close>

definition name_patterns :: "pystr \<Rightarrow> pyerr + pystr list" where
  "name_patterns company =
     (if company \<noteq> [] then
        (case split_ws company of
           [] \<Rightarrow> Inl IndexError
         | first_word # _ \<Rightarrow> Inr [company, first_word])
      else Inr [])"

definition locations :: "(pystr \<times> pystr) list" where
  "locations =
     [(asc ''Bangalore'', asc ''South India''),
      (asc ''Bengaluru'', asc ''South India''),
      (asc ''Mumbai'', asc ''West India''),
      (asc ''Delhi'', asc ''North India''),
      (asc ''Chennai'', asc ''South India''),
      (asc ''Hyderabad'', asc ''South India''),
      (asc ''Pune'', asc ''West India''),
      (asc ''Noida'', asc ''North India''),
      (asc ''DRDO'', asc ''Defence Organization''),
      (asc ''ISRO'', asc ''Space Agency''),
      (asc ''HAL'', asc ''Aerospace PSU'')]"

definition whole_word :: "pystr \<Rightarrow> rx" where
  "whole_word name = Seq WordB (Seq (Lit name) WordB)"

definition replace_names :: "pystr list \<Rightarrow> pystr \<Rightarrow> pystr" where
  "replace_names names text = fold (\<lambda>name result. rx_sub True (Lit name) the_company result) names text"

definition replace_locations :: "pystr \<Rightarrow> pystr" where
  "replace_locations text =
     fold (\<lambda>(name, replacement) result. rx_sub True (whole_word name) replacement result)
          locations text"

definition anonymize :: "pystr \<Rightarrow> pystr \<Rightarrow> pyerr + pystr" where
  "anonymize company text =
     (if text = [] then Inr text
      else (case name_patterns company of
              Inl e \<Rightarrow> Inl e
            | Inr names \<Rightarrow> Inr (replace_locations (replace_names names text))))"

text \<open>The text \<^verbatim>\<open>_anonymize\<close> returns when it returns.\<close>

definition names_of :: "pystr \<Rightarrow> pystr list" where
  "names_of company = (case name_patterns company of Inl e \<Rightarrow> [] | Inr names \<Rightarrow> names)"

definition anonymized :: "pystr \<Rightarrow> pystr \<Rightarrow> pystr" where
  "anonymized company text =
     (if text = [] then text else replace_locations (replace_names (names_of company) text))"

subsection \<open>\<^verbatim>\<open>_shorten_text\<close>\<close>

definition strip_char :: "nat \<Rightarrow> pystr \<Rightarrow> pystr" where
  "strip_char ch s = rev (dropWhile (\<lambda>c. c = ch) (rev (dropWhile (\<lambda>c. c = ch) s)))"

definition rstrip_char :: "nat \<Rightarrow> pystr \<Rightarrow> pystr" where
  "rstrip_char ch s = rev (dropWhile (\<lambda>c. c = ch) (rev s))"

definition ends_with :: "pystr \<Rightarrow> pystr \<Rightarrow> bool" where
  "ends_with s sfx = starts_with (rev s) (rev sfx)"

definition shorten_prompt :: "pystr \<Rightarrow> nat \<Rightarrow> pystr" where
  "shorten_prompt text max_chars =
     asc ''Shorten this text to under '' @ show_nat max_chars
     @ asc '' characters while keeping the key meaning.'' @ nl
     @ asc ''Do NOT end with '' @ [34] @ asc ''...'' @ [34] @ asc '' or cut mid-word.'' @ nl @ nl
     @ asc ''Text: '' @ text @ nl @ nl
     @ asc ''Return only the shortened text:''"

text \<open>The fallback loop over the words, left at the first word that does not fit.\<close>

fun truncate_words :: "nat \<Rightarrow> pystr \<Rightarrow> pystr list \<Rightarrow> pystr" where
  "truncate_words max_chars result [] = result"
| "truncate_words max_chars result (word # words) =
     (if length result + length word + 1 > max_chars then result
      else truncate_words max_chars (if result \<noteq> [] then result @ [32] @ word else word) words)"

definition generated_short :: "writer \<Rightarrow> pystr \<Rightarrow> nat \<Rightarrow> pystr option" where
  "generated_short w text max_chars =
     (case ollama w of
        None \<Rightarrow> None
      | Some generate \<Rightarrow>
          (case generate (shorten_prompt text max_chars) of
             None \<Rightarrow> None
           | Some result \<Rightarrow>
               if result \<noteq> [] then
                 (let shortened = strip_char 39 (strip_char 34 (strip result));
                      shortened = rstrip_char 46 shortened;
                      shortened = (if ends_with shortened (asc ''..'')
                                   then take (length shortened - 2) shortened else shortened)
                  in if length shortened \<le> max_chars then Some shortened else None)
               else None))"

definition shorten_text :: "writer \<Rightarrow> pystr \<Rightarrow> nat \<Rightarrow> pystr" where
  "shorten_text w text max_chars =
     (if text = [] \<or> length text \<le> max_chars then text
      else (case generated_short w text max_chars of
              Some shortened \<Rightarrow> shortened
            | None \<Rightarrow> strip (truncate_words max_chars [] (split_ws text))))"

subsection \<open>\<^verbatim>\<open>_generate_slide_1\<close>\<close>

text \<open>A loop that appends the result of each item, left by the first exception.\<close>

fun collect :: "('a \<Rightarrow> pyerr + 'b) \<Rightarrow> 'a list \<Rightarrow> pyerr + 'b list" where
  "collect f [] = Inr []"
| "collect f (x # xs) =
     (case f x of
        Inl e \<Rightarrow> Inl e
      | Inr y \<Rightarrow> (case collect f xs of Inl e \<Rightarrow> Inl e | Inr ys \<Rightarrow> Inr (y # ys)))"

definition overview_of :: "writer \<Rightarrow> pystr \<Rightarrow> pyerr + pystr" where
  "overview_of w desc =
     (case anonymize (company_name w) desc of
        Inl e \<Rightarrow> Inl e
      | Inr overview \<Rightarrow>
          Inr (if length overview > 200 then shorten_text w overview 200 else overview))"

definition highlight_of :: "writer \<Rightarrow> pystr \<Rightarrow> pyerr + pystr" where
  "highlight_of w indicator =
     (case anonymize (company_name w) indicator of
        Inl e \<Rightarrow> Inl e
      | Inr text \<Rightarrow> Inr (if length text > 70 then shorten_text w text 70 else text))"

definition industry_list :: "industries \<Rightarrow> pystr list" where
  "industry_list ind =
     (case ind of
        IndustryText s \<Rightarrow> map strip (filter (\<lambda>i. strip i \<noteq> []) (split_on 44 s))
      | IndustryList l \<Rightarrow> l)"

definition industries_truthy :: "industries \<Rightarrow> bool" where
  "industries_truthy ind = (case ind of IndustryText s \<Rightarrow> s \<noteq> [] | IndustryList l \<Rightarrow> l \<noteq> [])"

definition employees_pattern :: rx where
  "employees_pattern = Grp 1 (Seq (Cls is_digit) (Rep (\<lambda>c. is_digit c \<or> c = 44) 0 None True))"

definition slide_1_metrics :: "company_data \<Rightarrow> (pystr \<times> pystr) list" where
  "slide_1_metrics data =
     (let metrics = (if founded data \<noteq> [] then [(asc ''Founded'', take 10 (founded data))] else [])
      in if employees data \<noteq> [] then
           (case rx_search False employees_pattern (employees data) of
              None \<Rightarrow> metrics
            | Some emp_match \<Rightarrow> AList.update (asc ''Employees'') (group emp_match 1) metrics)
         else metrics)"

text \<open>
  The sections are stored in the order of the source. The parallel list of
  \<^verbatim>\<open>VerifiedClaim\<close> records, which repeats the same texts with their origin, is not modelled.
\<close>

definition generate_slide_1 :: "writer \<Rightarrow> company_data \<Rightarrow> pyerr + slide_content" where
  "generate_slide_1 w data =
     (case (if business_description data \<noteq> []
            then (case overview_of w (business_description data) of
                    Inl e \<Rightarrow> Inl e
                  | Inr overview \<Rightarrow> Inr (AList.update (asc ''Company Overview'') [overview] []))
            else Inr []) of
        Inl e \<Rightarrow> Inl e
      | Inr sections1 \<Rightarrow>
     (case (if products_services data \<noteq> []
            then (case collect (anonymize (company_name w)) (take 8 (products_services data)) of
                    Inl e \<Rightarrow> Inl e
                  | Inr product_list \<Rightarrow>
                      Inr (AList.update (asc ''Products & Services'') product_list sections1))
            else Inr sections1) of
        Inl e \<Rightarrow> Inl e
      | Inr sections2 \<Rightarrow>
     (let sections3 =
            (if industries_truthy (industries_served data)
             then AList.update (asc ''Industries Served'')
                    (take 6 (industry_list (industries_served data))) sections2
             else sections2)
      in
     (case (if key_operational_indicators data \<noteq> []
            then (case collect (highlight_of w) (take 4 (key_operational_indicators data)) of
                    Inl e \<Rightarrow> Inl e
                  | Inr highlights \<Rightarrow> Inr (AList.update (asc ''Key Highlights'') highlights sections3))
            else Inr sections3) of
        Inl e \<Rightarrow> Inl e
      | Inr sections4 \<Rightarrow>
          Inr \<lparr> title = asc ''Business Profile & Capabilities'',
                sections =
                  (if certifications data \<noteq> []
                   then AList.update (asc ''Certifications'') (take 5 (certifications data)) sections4
                   else sections4),
                metrics = slide_1_metrics data,
                hooks = None \<rparr>))))"

text \<open>The items slide 1 emits for a section (none when the function raises).\<close>

definition slide_1_items :: "writer \<Rightarrow> company_data \<Rightarrow> pystr \<Rightarrow> pystr list" where
  "slide_1_items w data name =
     (case generate_slide_1 w data of Inl e \<Rightarrow> [] | Inr slide \<Rightarrow> section_items slide name)"

text \<open>A company whose one product names a city.\<close>

definition pune_writer :: writer where
  "pune_writer = \<lparr> company_name = asc ''Kelp'', ollama = None \<rparr>"

definition pune_company :: company_data where
  "pune_company =
     \<lparr> business_description = [], products_services = [asc ''Pune pumps''],
       industries_served = IndustryText [], key_operational_indicators = [],
       certifications = [asc ''ISO 9001''], founded = [], employees = [] \<rparr>"

section \<open>Concrete source data\<close>

definition no_web :: web_data where
  "no_web = \<lparr> market = None, company_info = [] \<rparr>"

text \<open>\<^verbatim>\<open>ebitda = {2024: 40}\<close>, \<^verbatim>\<open>revenue = {2024: 210}\<close>.\<close>

definition margin_data :: pydict where
  "margin_data =
     [(KStr (asc ''financials''), VDict
        [(KStr (asc ''revenue''), VDict [(KInt 2024, VNum 210)]),
         (KStr (asc ''ebitda''), VDict [(KInt 2024, VNum 40)])])]"

definition margin_verifier :: verifier where
  "margin_verifier =
     \<lparr> citations = [], md_lines = [asc ''Precision components maker''],
       extracted_data = margin_data, web = no_web \<rparr>"

text \<open>\<^verbatim>\<open>revenue = {2024: 210}\<close> and a document without a matching line.\<close>

definition revenue_data :: pydict where
  "revenue_data =
     [(KStr (asc ''financials''), VDict
        [(KStr (asc ''revenue''), VDict [(KInt 2024, VNum 210)])])]"

definition revenue_verifier :: verifier where
  "revenue_verifier =
     \<lparr> citations = [], md_lines = [asc ''Precision components maker''],
       extracted_data = revenue_data, web = no_web \<rparr>"

definition fy24_210 :: pystr where
  "fy24_210 = asc ''FY24: '' @ [rupee] @ asc ''210 Cr''"

definition fy24_215 :: pystr where
  "fy24_215 = asc ''FY24: '' @ [rupee] @ asc ''215 Cr''"

text \<open>\<^verbatim>\<open>revenue = {2020: 100, 2021: 120, 2022: 145, 2023: 175, 2024: 210}\<close>.\<close>

definition cagr_revenue :: series where
  "cagr_revenue = [(2020, 100), (2021, 120), (2022, 145), (2023, 175), (2024, 210)]"

definition cagr_data :: pydict where
  "cagr_data =
     [(KStr (asc ''financials''), VDict
        [(KStr (asc ''revenue''), VDict
           [(KInt 2020, VNum 100), (KInt 2021, VNum 120), (KInt 2022, VNum 145),
            (KInt 2023, VNum 175), (KInt 2024, VNum 210)])])]"




definition margin_reference :: pystr where
  "margin_reference =
     asc ''EBITDA Margin = (FY2024_EBITDA / FY2024_Revenue) '' @ [times_sign] @ asc '' 100'' @ nl
     @ asc ''= (40.00 / 210.00) '' @ [times_sign] @ asc '' 100'' @ nl
     @ asc ''= 19.0%''"

text \<open>
  A highlight sentence as the one-pager may carry it, with no financial series extracted;
  the sentence is itself a line of the document.
\<close>

definition highlight :: pystr where
  "highlight = asc ''EBITDA margin improved in FY23. Crossed 100 Cr revenue''"

definition highlight_verifier :: verifier where
  "highlight_verifier =
     \<lparr> citations = [], md_lines = [highlight], extracted_data = [], web = no_web \<rparr>"

definition highlight_slide :: slide_content where
  "highlight_slide =
     \<lparr> title = asc ''Business Profile'',
       sections = [(asc ''Key Highlights'', [highlight, asc ''Precision components maker''])],
       metrics = [],
       hooks = None \<rparr>"

definition margin_fy_claim :: pystr where
  "margin_fy_claim = asc ''EBITDA Margin FY24: 18.5.1 Cr''"

definition cagr_fy_claim :: pystr where
  "cagr_fy_claim = asc ''Revenue CAGR since FY21. Cr 40 added''"

definition cagr_line_verifier :: verifier where
  "cagr_line_verifier =
     \<lparr> citations = [], md_lines = [cagr_fy_claim], extracted_data = [], web = no_web \<rparr>"

text \<open>Well-formedness of a citation returned for a claim.\<close>

definition citation_ok :: "nat \<Rightarrow> pystr \<Rightarrow> citation \<Rightarrow> bool" where
  "citation_ok sn cl c \<longleftrightarrow>
     slide_num c = sn \<and> claim c = cl \<and> source_reference c \<noteq> [] \<and>
     (verified c \<longleftrightarrow> source_type c \<in> {Onepager, Calculated, Web}) \<and>
     (\<not> verified c \<longleftrightarrow> source_type c = Unverified)"

section \<open>Properties of strings\<close>

lemma starts_with_iff: "starts_with s p \<longleftrightarrow> prefix p s"
  by (induction s p rule: starts_with.induct) auto

lemma str_in_iff: "str_in sub s \<longleftrightarrow> (\<exists>ps ss. s = ps @ sub @ ss)"
proof -
  have "str_in sub s \<longleftrightarrow> sublist sub s"
    by (induction s) (auto simp: starts_with_iff sublist_Cons_right)
  then show ?thesis by (simp add: sublist_def)
qed

section \<open>Properties of the filter\<close>

lemma map_of_fold_filter_section:
  "distinct (map fst secs) \<Longrightarrow> (\<forall>e \<in> set secs. map_of acc (fst e) = None) \<Longrightarrow>
   map_of (fold (filter_section cs) secs acc) name =
     (case map_of secs name of
        None \<Rightarrow> map_of acc name
      | Some its \<Rightarrow> if filter (is_verified cs) its = [] then None else Some (filter (is_verified cs) its))"
proof (induction secs arbitrary: acc)
  case Nil
  then show ?case by simp
next
  case (Cons e secs)
  obtain k its where e: "e = (k, its)" by (cases e)
  let ?acc = "filter_section cs e acc"
  have fresh: "\<forall>e' \<in> set secs. map_of ?acc (fst e') = None"
    using Cons.prems by (auto simp: filter_section_def Let_def e update_conv')
  have dist: "distinct (map fst secs)" using Cons.prems by simp
  have knot: "map_of secs k = None"
    using Cons.prems by (simp add: e map_of_eq_None_iff)
  show ?case
  proof (cases "name = k")
    case True
    have "map_of (fold (filter_section cs) (e # secs) acc) name = map_of ?acc k"
      using Cons.IH[OF dist fresh] knot True by simp
    also have "\<dots> = (if filter (is_verified cs) its = [] then None
                      else Some (filter (is_verified cs) its))"
      using Cons.prems by (simp add: filter_section_def Let_def e update_conv')
    finally show ?thesis using True by (simp add: e)
  next
    case False
    have "map_of ?acc name = map_of acc name"
      using False by (simp add: filter_section_def Let_def e update_conv')
    then show ?thesis
      using Cons.IH[OF dist fresh] False by (simp add: e split: option.splits)
  qed
qed

lemma map_of_sections_filter_slide:
  assumes "distinct (map fst (sections slide))"
  shows "map_of (sections (filter_slide cs slide)) name =
     (case map_of (sections slide) name of
        None \<Rightarrow> None
      | Some its \<Rightarrow> if filter (is_verified cs) its = [] then None
                    else Some (filter (is_verified cs) its))"
proof -
  have "map_of (fold (filter_section cs) (sections slide) []) name =
     (case map_of (sections slide) name of
        None \<Rightarrow> map_of [] name
      | Some its \<Rightarrow> if filter (is_verified cs) its = [] then None
                    else Some (filter (is_verified cs) its))"
    using assms by (intro map_of_fold_filter_section) simp_all
  then show ?thesis by (simp add: filter_slide_def split: option.splits)
qed

lemma section_items_filter_slide:
  "distinct (map fst (sections slide)) \<Longrightarrow>
   section_items (filter_slide cs slide) name = filter (is_verified cs) (section_items slide name)"
  by (simp add: section_items_def map_of_sections_filter_slide split: option.splits)

lemma hook_items_filter_slide:
  "hook_items (filter_slide cs slide) = filter (is_verified cs) (hook_items slide)"
  by (simp add: hook_items_def filter_slide_def filter_hooks_def Let_def split: option.splits)

lemma is_verified_iff:
  "is_verified cs item \<longleftrightarrow>
     (\<exists>c \<in> set cs. verified c \<and>
        (claim c = item \<or> (\<exists>p q. claim c = p @ item @ q) \<or> (\<exists>p q. item = p @ claim c @ q)))"
  by (simp add: is_verified_def list_ex_iff str_in_iff)

text \<open>
  C1. For every slide passed through the filtering step, an item of a section (or a hook)
  is in the filtered output if and only if it is an item of that section (a hook) of the
  slide and some accumulated citation is verified and has a claim equal to the item,
  containing the item, or contained in the item. Items without such a citation are dropped,
  and a section whose items are all dropped is absent from the filtered sections.
\<close>

theorem filter_verified_exact:
  assumes "i < length slides" and "distinct (map fst (sections (slides ! i)))"
  shows "length (filter_verified cs slides) = length slides
    \<and> (\<forall>name item.
          item \<in> set (section_items (filter_verified cs slides ! i) name) \<longleftrightarrow>
          item \<in> set (section_items (slides ! i) name) \<and>
          (\<exists>c \<in> set cs. verified c \<and>
             (claim c = item \<or> (\<exists>p q. claim c = p @ item @ q) \<or> (\<exists>p q. item = p @ claim c @ q))))
    \<and> (\<forall>item.
          item \<in> set (hook_items (filter_verified cs slides ! i)) \<longleftrightarrow>
          item \<in> set (hook_items (slides ! i)) \<and>
          (\<exists>c \<in> set cs. verified c \<and>
             (claim c = item \<or> (\<exists>p q. claim c = p @ item @ q) \<or> (\<exists>p q. item = p @ claim c @ q))))
    \<and> (\<forall>name. (\<forall>item \<in> set (section_items (slides ! i) name). \<not> is_verified cs item) \<longrightarrow>
          map_of (sections (filter_verified cs slides ! i)) name = None)
    \<and> (\<forall>name. section_items (filter_verified cs slides ! i) name
                 = filter (is_verified cs) (section_items (slides ! i) name))"
proof -
  let ?s = "slides ! i"
  have nth: "filter_verified cs slides ! i = filter_slide cs ?s"
    using assms(1) by (simp add: filter_verified_def)
  have items: "section_items (filter_slide cs ?s) name = filter (is_verified cs) (section_items ?s name)"
    for name
    using assms(2) by (rule section_items_filter_slide)
  have absent: "map_of (sections (filter_slide cs ?s)) name = None"
    if "\<forall>item \<in> set (section_items ?s name). \<not> is_verified cs item" for name
  proof -
    have "filter (is_verified cs) (section_items ?s name) = []"
      using that by (simp add: filter_empty_conv)
    then show ?thesis
      using map_of_sections_filter_slide [OF assms(2), of cs name]
      by (auto simp: section_items_def split: option.splits)
  qed
  show ?thesis
    unfolding nth
    using items absent
    by (simp add: filter_verified_def hook_items_filter_slide is_verified_iff)
qed

theorem filter_verified_exact_witness:
  "0 < length [demo_slide] \<and> distinct (map fst (sections ([demo_slide] ! 0)))
   \<and> section_items (filter_verified demo_citations [demo_slide] ! 0) (asc ''Products'') = [asc ''Pumps'']
   \<and> map_of (sections (filter_verified demo_citations [demo_slide] ! 0)) (asc ''Certifications'') = None"
proof -
  have h1: "0 < length [demo_slide]" by simp
  have h2: "distinct (map fst (sections ([demo_slide] ! 0)))"
    by (simp add: demo_slide_def asc_def)
  have v1: "is_verified demo_citations (asc ''Pumps'')"
    by (simp add: is_verified_def demo_citations_def asc_def)
  have v2: "\<not> is_verified demo_citations (asc ''Gears'')"
    by (simp add: is_verified_def demo_citations_def asc_def)
  have v3: "\<not> is_verified demo_citations (asc ''ISO 9001'')"
    by (simp add: is_verified_def demo_citations_def asc_def)
  have s1: "section_items ([demo_slide] ! 0) (asc ''Products'') = [asc ''Pumps'', asc ''Gears'']"
    by (simp add: section_items_def demo_slide_def asc_def)
  have s2: "section_items ([demo_slide] ! 0) (asc ''Certifications'') = [asc ''ISO 9001'']"
    by (simp add: section_items_def demo_slide_def asc_def)
  show ?thesis
    using h1 h2 filter_verified_exact [OF h1 h2, of demo_citations] v1 v2 v3 s1 s2
    by simp
qed
section \<open>Evaluation on concrete data\<close>

lemmas string_defs =
  asc_def rupee_def times_sign_def nl_def is_space_def is_digit_def is_word_def lower_cp_def
  upper_cp_def lower_def upper_def strip_def split_ws_def split_on_def split_once_def
  show_nat.simps show_int_def Let_def

lemmas rx_defs =
  lit_prefix_def advance_def rep_counts_def at_boundary_def rx_search_from.simps rx_search_def
  rx_found_def group_def dot_def

lemmas float_defs =
  round_half_even_def pad_zeros_def fmt_fixed_def digits_val_def unsigned_int_def split_sign_def
  py_int_def mantissa_def py_float_def

lemmas verifier_defs =
  get_dict_def has_year_def at_year_def mk_citation_def calculated_patterns_def
  is_calculated_claim_def web_patterns_def is_web_claim_def fy_pattern_def
  not_verified_calculated_def fy_citation_def calculated_of_def verify_calculated_def
  verify_claim_def

lemma highlight_is_calculated: "is_calculated_claim highlight"
  by (simp add: highlight_def string_defs rx_defs verifier_defs)

lemma highlight_fy_match:
  "rx_search False fy_pattern highlight =
     Some ([(1, asc ''23''), (2, asc ''.'')], Some 114, asc ''ossed 100 Cr revenue'')"
  by (simp add: highlight_def string_defs rx_defs verifier_defs)

lemma float_of_dot: "py_float (asc ''.'') = None"
  by (simp add: string_defs float_defs)

lemma highlight_raises: "verify_claim highlight_verifier 1 highlight = Inl ValueError"
proof -
  have short: "\<not> (highlight = [] \<or> length (strip highlight) < 3)"
    by (simp add: highlight_def string_defs)
  have cagr: "\<not> str_in (asc ''CAGR'') highlight"
    by (simp add: highlight_def string_defs)
  have margin: "\<not> str_in (asc ''Margin'') highlight"
    by (simp add: highlight_def string_defs)
  have "fy_citation 1 highlight [] [] = Inl ValueError"
    by (simp add: fy_citation_def highlight_fy_match group_def float_of_dot)
  then have "calculated_of 1 highlight [] [] = Inl ValueError"
    by (simp add: calculated_of_def cagr margin)
  then have "verify_calculated highlight_verifier 1 highlight = Inl ValueError"
    by (simp add: verify_calculated_def highlight_verifier_def get_dict_def)
  then show ?thesis
    using short highlight_is_calculated by (simp add: verify_claim_def)
qed

lemma margin_series:
  "series_of (get_dict (get_dict margin_data (asc ''financials'')) (asc ''revenue'')) = [(2024, 210)]"
  "series_of (get_dict (get_dict margin_data (asc ''financials'')) (asc ''ebitda'')) = [(2024, 40)]"
  by (simp_all add: margin_data_def get_dict_def asc_def)

lemma margin_citation_example:
  "margin_citation sn cl [(2024, 40)] [(2024, 210)] = Some (mk_citation sn cl True Calculated margin_reference)"
  by (simp add: margin_citation_def margin_text_def has_year_def at_year_def margin_reference_def
        mk_citation_def string_defs float_defs)

lemma margin_claims_calculated:
  "is_calculated_claim (asc ''EBITDA Margin: 25.0%'')"
  "is_calculated_claim (asc ''EBITDA Margin: 19.0%'')"
  by (simp_all add: string_defs rx_defs verifier_defs)

text \<open>
  C2. With \<^verbatim>\<open>ebitda = {2024: 40}\<close> and \<^verbatim>\<open>revenue = {2024: 210}\<close> the claim
  "EBITDA Margin: 19.0%" is verified, and so is the claim "EBITDA Margin: 25.0%": the margin
  branch returns a verified citation for every claim containing "Margin", with a reference
  that records the recomputed 19.0%, and never compares the figure in the claim.
\<close>

theorem margin_any_figure_verified:
  "verify_claim margin_verifier 2 (asc ''EBITDA Margin: 19.0%'')
     = Inr (mk_citation 2 (asc ''EBITDA Margin: 19.0%'') True Calculated margin_reference)
   \<and> verify_claim margin_verifier 2 (asc ''EBITDA Margin: 25.0%'')
     = Inr (mk_citation 2 (asc ''EBITDA Margin: 25.0%'') True Calculated margin_reference)"
proof -
  have a: "verify_calculated margin_verifier sn cl = Inr (mk_citation sn cl True Calculated margin_reference)"
    if "str_in (asc ''Margin'') cl" "\<not> str_in (asc ''CAGR'') cl" for sn cl
    using that
    by (simp add: verify_calculated_def margin_verifier_def margin_series calculated_of_def
          margin_citation_example)
  have s1: "\<not> (asc ''EBITDA Margin: 19.0%'' = [] \<or> length (strip (asc ''EBITDA Margin: 19.0%'')) < 3)"
    by (simp add: string_defs)
  have s2: "\<not> (asc ''EBITDA Margin: 25.0%'' = [] \<or> length (strip (asc ''EBITDA Margin: 25.0%'')) < 3)"
    by (simp add: string_defs)
  have m1: "str_in (asc ''Margin'') (asc ''EBITDA Margin: 19.0%'')"
    "\<not> str_in (asc ''CAGR'') (asc ''EBITDA Margin: 19.0%'')"
    by (simp_all add: asc_def)
  have m2: "str_in (asc ''Margin'') (asc ''EBITDA Margin: 25.0%'')"
    "\<not> str_in (asc ''CAGR'') (asc ''EBITDA Margin: 25.0%'')"
    by (simp_all add: asc_def)
  show ?thesis
    using s1 s2 margin_claims_calculated a [OF m1] a [OF m2]
    by (simp add: verify_claim_def)
qed

lemma revenue_series:
  "series_of (get_dict (get_dict revenue_data (asc ''financials'')) (asc ''revenue'')) = [(2024, 210)]"
  "series_of (get_dict (get_dict revenue_data (asc ''financials'')) (asc ''ebitda'')) = []"
  by (simp_all add: revenue_data_def get_dict_def asc_def)

lemma fy24_match:
  "rx_search False fy_pattern fy24_210 = Some ([(1, asc ''24''), (2, asc ''210'')], Some 114, [])"
  "rx_search False fy_pattern fy24_215 = Some ([(1, asc ''24''), (2, asc ''215'')], Some 114, [])"
  by (simp_all add: fy24_210_def fy24_215_def string_defs rx_defs verifier_defs)

lemma fy24_parse:
  "py_float (asc ''210'') = Some 210" "py_float (asc ''215'') = Some 215" "py_int (asc ''24'') = Some 24"
  by (simp_all add: string_defs float_defs)

lemma fy24_not_dispatched:
  "\<not> is_calculated_claim fy24_210" "\<not> is_web_claim fy24_210"
  "\<not> is_calculated_claim fy24_215" "\<not> is_web_claim fy24_215"
  by (simp_all add: fy24_210_def fy24_215_def string_defs rx_defs verifier_defs)

lemma fy24_direct:
  "verify_calculated revenue_verifier 2 fy24_210 =
     Inr (mk_citation 2 fy24_210 True Onepager
            (asc ''Financial data: Revenue FY2024 = '' @ [rupee] @ asc ''210.00 Cr''))"
  "verify_calculated revenue_verifier 2 fy24_215 = Inr (not_verified_calculated 2 fy24_215)"
proof -
  have c: "\<not> str_in (asc ''CAGR'') fy24_210" "\<not> str_in (asc ''Margin'') fy24_210"
    "\<not> str_in (asc ''CAGR'') fy24_215" "\<not> str_in (asc ''Margin'') fy24_215"
    by (simp_all add: fy24_210_def fy24_215_def string_defs)
  have f: "fmt_fixed 2 210 = asc ''210.00''" by (simp add: string_defs float_defs)
  have y: "show_int 2024 = asc ''2024''" by (simp add: string_defs)
  have l: "length (asc ''24'') = 2" by (simp add: asc_def)
  show "verify_calculated revenue_verifier 2 fy24_210 =
     Inr (mk_citation 2 fy24_210 True Onepager
            (asc ''Financial data: Revenue FY2024 = '' @ [rupee] @ asc ''210.00 Cr''))"
    by (simp add: verify_calculated_def revenue_verifier_def revenue_series calculated_of_def c
          fy_citation_def fy24_match group_def fy24_parse has_year_def at_year_def f y l)
       (simp add: asc_def)
  show "verify_calculated revenue_verifier 2 fy24_215 = Inr (not_verified_calculated 2 fy24_215)"
    by (simp add: verify_calculated_def revenue_verifier_def revenue_series calculated_of_def c
          fy_citation_def fy24_match group_def fy24_parse has_year_def at_year_def l)
qed

lemma fy24_onepager:
  "verify_onepager revenue_verifier 2 fy24_210 =
     mk_citation 2 fy24_210 False Unverified (asc ''No matching source found in one-pager'')"
  "verify_onepager revenue_verifier 2 fy24_215 =
     mk_citation 2 fy24_215 False Unverified (asc ''No matching source found in one-pager'')"
  by (simp_all add: verify_onepager_def revenue_verifier_def revenue_data_def best_line_def
        line_step_def clean_for_matching_def is_markup_def new_key_def fy24_210_def fy24_215_def
        string_defs)

text \<open>
  C3. Against \<^verbatim>\<open>revenue = {2024: 210}\<close> and a document without a matching line, the claim
  "FY24: (rupee)210 Cr" is not a calculated claim for the dispatch (no pattern of
  \<^verbatim>\<open>_is_calculated_claim\<close> matches it), so it never reaches the FY-value check and comes back
  unverified from the one-pager path; the FY-value check of \<^verbatim>\<open>_verify_calculated\<close>, called
  on its own, accepts it (difference 0) and rejects "FY24: (rupee)215 Cr" (difference 5).
\<close>

theorem fy_value_check_unreachable:
  "verify_claim revenue_verifier 2 fy24_210
     = Inr (mk_citation 2 fy24_210 False Unverified (asc ''No matching source found in one-pager''))
   \<and> \<not> is_calculated_claim fy24_210
   \<and> verify_calculated revenue_verifier 2 fy24_210
     = Inr (mk_citation 2 fy24_210 True Onepager
              (asc ''Financial data: Revenue FY2024 = '' @ [rupee] @ asc ''210.00 Cr''))
   \<and> verify_calculated revenue_verifier 2 fy24_215 = Inr (not_verified_calculated 2 fy24_215)
   \<and> verify_claim revenue_verifier 2 fy24_215
     = Inr (mk_citation 2 fy24_215 False Unverified (asc ''No matching source found in one-pager''))"
proof -
  have s: "\<not> (fy24_210 = [] \<or> length (strip fy24_210) < 3)"
    "\<not> (fy24_215 = [] \<or> length (strip fy24_215) < 3)"
    by (simp_all add: fy24_210_def fy24_215_def string_defs)
  show ?thesis
    using s fy24_not_dispatched fy24_direct fy24_onepager by (simp add: verify_claim_def)
qed

text \<open>
  C5. The per-claim verification raises for some claims: a claim that is dispatched to the
  calculated path, gets no CAGR or margin citation and matches the FY pattern with a second
  group that is no float literal (here ".") makes \<^verbatim>\<open>float\<close> raise \<^verbatim>\<open>ValueError\<close>, which
  nothing catches. The exception leaves the loop over the slide, so the claims after it are
  not verified either.
\<close>

theorem verify_claim_raises:
  "verify_claim highlight_verifier 1 highlight = Inl ValueError
   \<and> verify_slide_content highlight_verifier 1 highlight_slide = Inl ValueError"
  using highlight_raises
  by (simp add: verify_slide_content_def highlight_slide_def)

section \<open>The CAGR example\<close>



lemma cagr_series:
  "series_of (get_dict (get_dict cagr_data (asc ''financials'')) (asc ''revenue'')) = cagr_revenue"
  by (simp add: cagr_data_def cagr_revenue_def get_dict_def asc_def)


section \<open>Literal patterns and the triviality filter\<close>

lemma starts_with_lit_prefix: "starts_with s p \<Longrightarrow> lit_prefix ci p s"
proof -
  assume "starts_with s p"
  then obtain t where "s = p @ t" by (auto simp: starts_with_iff prefix_def)
  then show ?thesis by (simp add: lit_prefix_def)
qed

lemma lit_search_from: "str_in p s \<Longrightarrow> rx_search_from ci (Lit p) prev s \<noteq> None"
proof (induction s arbitrary: prev)
  case Nil
  then show ?case by (simp add: rx_search_from.simps lit_prefix_def)
next
  case (Cons c cs)
  show ?case
  proof (cases "rx_match ci (Lit p) ([], prev, c # cs)")
    case Nil
    then have "\<not> lit_prefix ci p (c # cs)" by (simp split: if_splits)
    then have "\<not> starts_with (c # cs) p" using starts_with_lit_prefix by blast
    then have "str_in p cs" using Cons.prems by simp
    then have "rx_search_from ci (Lit p) (Some c) cs \<noteq> None" by (rule Cons.IH)
    then show ?thesis using Nil by (subst rx_search_from.simps) simp
  next
    case (Cons st sts)
    then show ?thesis by (subst rx_search_from.simps) simp
  qed
qed

lemma lit_found: "str_in p s \<Longrightarrow> rx_found ci (Lit p) s"
  by (simp add: rx_found_def rx_search_def lit_search_from)

lemma dropWhile_keeps_block:
  assumes "p \<noteq> []" and "\<not> P (hd p)"
  shows "\<exists>a'. dropWhile P (a @ p @ b) = a' @ p @ b"
proof (induction a)
  case Nil
  obtain x xs where "p = x # xs" using assms(1) by (cases p) auto
  then have "dropWhile P (p @ b) = p @ b" using assms(2) by simp
  then show ?case by (intro exI [of _ "[]"]) simp
next
  case (Cons x a)
  then obtain a' where a': "dropWhile P (a @ p @ b) = a' @ p @ b" by blast
  show ?case
  proof (cases "P x")
    case True
    then show ?thesis using a' by auto
  next
    case False
    then have "dropWhile P ((x # a) @ p @ b) = (x # a) @ p @ b" by simp
    then show ?thesis by blast
  qed
qed

lemma strip_keeps_block:
  assumes "str_in p s" and "p \<noteq> []" and "\<not> is_space (hd p)" and "\<not> is_space (last p)"
  shows "length p \<le> length (strip s)"
proof -
  obtain a b where s: "s = a @ p @ b" using assms(1) by (auto simp: str_in_iff)
  obtain a' where a': "dropWhile is_space (a @ p @ b) = a' @ p @ b"
    using dropWhile_keeps_block [of p is_space a b] assms(2,3) by blast
  have rp: "rev p \<noteq> []" "\<not> is_space (hd (rev p))"
    using assms(2,4) by (simp_all add: hd_rev)
  obtain b' where "dropWhile is_space (rev b @ rev p @ rev a') = b' @ rev p @ rev a'"
    using dropWhile_keeps_block [of "rev p" is_space "rev b" "rev a'"] rp by blast
  then have "strip s = rev (b' @ rev p @ rev a')"
    by (simp add: strip_def s a')
  then show ?thesis by simp
qed

lemma cagr_claim_dispatch:
  assumes "str_in (asc ''CAGR'') cl"
  shows "is_calculated_claim cl" and "\<not> (cl = [] \<or> length (strip cl) < 3)"
proof -
  show "is_calculated_claim cl"
    using lit_found [OF assms, of True] by (simp add: is_calculated_claim_def calculated_patterns_def)
  have "length (asc ''CAGR'') \<le> length (strip cl)"
    by (rule strip_keeps_block [OF assms]) (simp_all add: asc_def is_space_def)
  moreover have "cl \<noteq> []" using assms by (auto simp: asc_def)
  ultimately show "\<not> (cl = [] \<or> length (strip cl) < 3)" by (simp add: asc_def)
qed

lemma margin_claim_dispatch:
  assumes "str_in (asc ''Margin'') cl"
  shows "is_calculated_claim cl" and "\<not> (cl = [] \<or> length (strip cl) < 3)"
proof -
  show "is_calculated_claim cl"
    using lit_found [OF assms, of True] by (simp add: is_calculated_claim_def calculated_patterns_def)
  have "length (asc ''Margin'') \<le> length (strip cl)"
    by (rule strip_keeps_block [OF assms]) (simp_all add: asc_def is_space_def)
  moreover have "cl \<noteq> []" using assms by (auto simp: asc_def)
  ultimately show "\<not> (cl = [] \<or> length (strip cl) < 3)" by (simp add: asc_def)
qed










section \<open>What every returned citation satisfies\<close>

lemma citation_ok_mk:
  "citation_ok sn cl (mk_citation sn' cl' ok ty ref) \<longleftrightarrow>
     sn' = sn \<and> cl' = cl \<and> ref \<noteq> [] \<and> (ok \<longleftrightarrow> ty \<noteq> Unverified)"
  by (cases ty) (auto simp: citation_ok_def mk_citation_def)

lemma asc_eq_Nil [simp]: "asc s = [] \<longleftrightarrow> s = []"
  by (simp add: asc_def)

lemma cagr_citation_ok: "cagr_citation sn cl revenue = Some c \<Longrightarrow> citation_ok sn cl c"
  by (auto simp: cagr_citation_def cagr_text_def Let_def citation_ok_mk split: if_splits)

lemma margin_citation_ok: "margin_citation sn cl ebitda revenue = Some c \<Longrightarrow> citation_ok sn cl c"
  by (auto simp: margin_citation_def margin_text_def Let_def citation_ok_mk split: if_splits)

lemma fy_citation_ok:
  "fy_citation sn cl revenue ebitda = Inl ValueError
   \<or> (\<exists>c. fy_citation sn cl revenue ebitda = Inr c \<and> citation_ok sn cl c)"
  by (auto simp: fy_citation_def not_verified_calculated_def Let_def citation_ok_mk
           split: option.splits)

lemma calculated_of_ok:
  "calculated_of sn cl revenue ebitda = Inl ValueError
   \<or> (\<exists>c. calculated_of sn cl revenue ebitda = Inr c \<and> citation_ok sn cl c)"
  using fy_citation_ok [of sn cl revenue ebitda]
  by (auto simp: calculated_of_def cagr_citation_ok margin_citation_ok split: option.splits if_splits)

lemma market_citation_ok: "market_citation sn cl m = Some c \<Longrightarrow> citation_ok sn cl c"
  by (auto simp: market_citation_def Let_def citation_ok_mk split: if_splits)

lemma page_citation_ok: "page_citation sn cl pages = Some c \<Longrightarrow> citation_ok sn cl c"
  by (induction sn cl pages rule: page_citation.induct)
     (auto simp: citation_ok_mk split: if_splits)

lemma verify_web_data_ok: "citation_ok sn cl (verify_web_data v sn cl)"
  by (auto simp: verify_web_data_def citation_ok_mk market_citation_ok page_citation_ok
           split: option.splits)

lemma field_citation_ok:
  "field_citation sn cl clean_claim flds = Some c \<Longrightarrow> citation_ok sn cl c"
  by (induction sn cl clean_claim flds rule: field_citation.induct)
     (auto simp: citation_ok_mk Let_def split: if_splits)

lemma verify_onepager_ok: "citation_ok sn cl (verify_onepager v sn cl)"
proof -
  have fallback:
    "citation_ok sn cl
       (case field_citation sn cl cc flds of
          Some c \<Rightarrow> c
        | None \<Rightarrow> mk_citation sn cl False Unverified (asc ''No matching source found in one-pager''))"
    for cc flds
    by (auto simp: citation_ok_mk field_citation_ok split: option.splits)
  have line:
    "citation_ok sn cl
       \<lparr> slide_num = sn, claim = cl, verified = True, source_type = Onepager,
         source_reference = asc ''Line '' @ show_nat n @ asc '': '' @ strip l,
         line_number = Some n, line_content = Some (strip l) \<rparr>"
    for n l
    by (simp add: citation_ok_def)
  show ?thesis
    unfolding verify_onepager_def Let_def
    using fallback line by (simp split: option.splits prod.splits)
qed

lemma verify_claim_ok:
  "verify_claim v sn cl = Inl ValueError
   \<or> (\<exists>c. verify_claim v sn cl = Inr c \<and> citation_ok sn cl c)"
  using calculated_of_ok
  by (simp add: verify_claim_def verify_calculated_def Let_def citation_ok_mk verify_web_data_ok
        verify_onepager_ok)

section \<open>Dispatch\<close>

text \<open>
  A claim that matches a calculated or a web pattern is judged from the revenue and EBITDA
  series and the web data alone: the lines of the document and every other extracted field
  are never read.
\<close>

lemma dispatch_ignores_document:
  assumes "is_calculated_claim cl \<or> is_web_claim cl"
    and "get_dict (extracted_data v') (asc ''financials'') = get_dict (extracted_data v) (asc ''financials'')"
    and "web v' = web v"
  shows "verify_claim v' sn cl = verify_claim v sn cl"
  using assms
  by (auto simp: verify_claim_def verify_calculated_def verify_web_data_def split: option.splits)

lemma empty_series_not_verified:
  "calculated_of sn cl [] [] = Inl ValueError
   \<or> calculated_of sn cl [] [] = Inr (not_verified_calculated sn cl)"
  by (auto simp: calculated_of_def cagr_citation_def margin_citation_def fy_citation_def
        has_year_def Let_def split: option.splits)

lemma empty_series_claim_not_verified:
  assumes "str_in (asc ''Margin'') cl \<or> str_in (asc ''CAGR'') cl"
    and "series_of (get_dict (get_dict (extracted_data v) (asc ''financials'')) (asc ''revenue'')) = []"
    and "series_of (get_dict (get_dict (extracted_data v) (asc ''financials'')) (asc ''ebitda'')) = []"
  shows "verify_claim v sn cl = Inl ValueError
         \<or> verify_claim v sn cl = Inr (not_verified_calculated sn cl)"
proof -
  have "is_calculated_claim cl \<and> \<not> (cl = [] \<or> length (strip cl) < 3)"
    using assms(1) cagr_claim_dispatch margin_claim_dispatch by blast
  then have "verify_claim v sn cl = calculated_of sn cl [] []"
    using assms(2,3) by (simp add: verify_claim_def verify_calculated_def)
  then show ?thesis using empty_series_not_verified [of sn cl] by simp
qed

section \<open>Claims on which the verifier raises\<close>

lemma margin_fy_match:
  "rx_search False fy_pattern margin_fy_claim =
     Some ([(1, asc ''24''), (2, asc ''18.5.1'')], Some 114, [])"
  by (simp add: margin_fy_claim_def string_defs rx_defs verifier_defs)

lemma float_of_two_points: "py_float (asc ''18.5.1'') = None"
  by (simp add: string_defs float_defs)

text \<open>
  C6. Not every call returns a citation: with a revenue series but no EBITDA series, the claim
  "EBITDA Margin FY24: 18.5.1 Cr" is dispatched to the calculated path, gets no margin
  citation, matches the FY pattern with second group "18.5.1", and \<^verbatim>\<open>float\<close> raises
  \<^verbatim>\<open>ValueError\<close>. (Every citation that is returned has the claimed shape:
  \<open>verify_claim_ok\<close>.)
\<close>

theorem verify_claim_no_citation:
  "verify_claim revenue_verifier 2 margin_fy_claim = Inl ValueError"
proof -
  have m: "str_in (asc ''Margin'') margin_fy_claim"
    by (simp add: margin_fy_claim_def asc_def)
  have c: "\<not> str_in (asc ''CAGR'') margin_fy_claim"
    by (simp add: margin_fy_claim_def asc_def)
  have "fy_citation 2 margin_fy_claim [(2024, 210)] [] = Inl ValueError"
    by (simp add: fy_citation_def margin_fy_match group_def float_of_two_points)
  then have "calculated_of 2 margin_fy_claim [(2024, 210)] [] = Inl ValueError"
    by (simp add: calculated_of_def c margin_citation_def)
  then have "verify_calculated revenue_verifier 2 margin_fy_claim = Inl ValueError"
    by (simp add: verify_calculated_def revenue_verifier_def revenue_series)
  then show ?thesis
    using margin_claim_dispatch [OF m] by (simp add: verify_claim_def)
qed

lemma cagr_fy_match:
  "rx_search False fy_pattern cagr_fy_claim =
     Some ([(1, asc ''21''), (2, asc ''.'')], Some 114, asc '' 40 added'')"
  by (simp add: cagr_fy_claim_def string_defs rx_defs verifier_defs)

lemma cagr_fy_line_matches:
  "verify_onepager cagr_line_verifier 1 cagr_fy_claim =
     \<lparr> slide_num = 1, claim = cagr_fy_claim, verified = True, source_type = Onepager,
       source_reference = asc ''Line 1: '' @ cagr_fy_claim,
       line_number = Some 1, line_content = Some cagr_fy_claim \<rparr>"
  by (simp add: verify_onepager_def cagr_line_verifier_def best_line_def line_step_def
        clean_for_matching_def is_markup_def cagr_fy_claim_def string_defs)

text \<open>
  C10. With no financial series extracted, the claim "Revenue CAGR since FY21. Cr 40 added"
  contains "CAGR" and is a line of the document. It is dispatched to the calculated path and
  never compared with the document (the one-pager path would verify it at line 1), but it
  does not yield a citation with \<^verbatim>\<open>verified = false\<close>: the FY pattern matches with second
  group "." and \<^verbatim>\<open>float\<close> raises \<^verbatim>\<open>ValueError\<close>.
\<close>

theorem calculated_claim_raises_on_document_line:
  "is_calculated_claim cagr_fy_claim
   \<and> cagr_fy_claim \<in> set (md_lines cagr_line_verifier)
   \<and> verified (verify_onepager cagr_line_verifier 1 cagr_fy_claim)
   \<and> verify_claim cagr_line_verifier 1 cagr_fy_claim = Inl ValueError"
proof -
  have c: "str_in (asc ''CAGR'') cagr_fy_claim"
    by (simp add: cagr_fy_claim_def asc_def)
  have m: "\<not> str_in (asc ''Margin'') cagr_fy_claim"
    by (simp add: cagr_fy_claim_def asc_def)
  have "fy_citation 1 cagr_fy_claim [] [] = Inl ValueError"
    by (simp add: fy_citation_def cagr_fy_match group_def float_of_dot)
  then have "calculated_of 1 cagr_fy_claim [] [] = Inl ValueError"
    by (simp add: calculated_of_def m cagr_citation_def)
  then have "verify_calculated cagr_line_verifier 1 cagr_fy_claim = Inl ValueError"
    by (simp add: verify_calculated_def cagr_line_verifier_def get_dict_def)
  then have r: "verify_claim cagr_line_verifier 1 cagr_fy_claim = Inl ValueError"
    using cagr_claim_dispatch [OF c] by (simp add: verify_claim_def)
  have l: "cagr_fy_claim \<in> set (md_lines cagr_line_verifier)"
    by (simp add: cagr_line_verifier_def)
  have v: "verified (verify_onepager cagr_line_verifier 1 cagr_fy_claim)"
    using cagr_fy_line_matches by simp
  show ?thesis by (intro conjI cagr_claim_dispatch(1) [OF c] l v r)
qed

section \<open>Properties of the text helpers\<close>

lemma count_sub_pos: "0 < count_sub p s \<longleftrightarrow> p \<noteq> [] \<and> str_in p s"
  by (induction p s rule: count_sub.induct) auto

section \<open>Properties of the financial-row parser\<close>

lemma split_once_colon:
  assumes "58 \<in> set e"
  shows "split_once 58 e = [takeWhile (\<lambda>c. c \<noteq> 58) e, tl (dropWhile (\<lambda>c. c \<noteq> 58) e)]"
    and "e = takeWhile (\<lambda>c. c \<noteq> 58) e @ 58 # tl (dropWhile (\<lambda>c. c \<noteq> 58) e)"
proof -
  show "split_once 58 e = [takeWhile (\<lambda>c. c \<noteq> 58) e, tl (dropWhile (\<lambda>c. c \<noteq> 58) e)]"
    using assms by (simp add: split_once_def)
  have ne: "dropWhile (\<lambda>c. c \<noteq> 58) e \<noteq> []" using assms by simp
  then have "hd (dropWhile (\<lambda>c. c \<noteq> 58) e) = 58" using hd_dropWhile [of "\<lambda>c. c \<noteq> 58" e] by simp
  then have "dropWhile (\<lambda>c. c \<noteq> 58) e = 58 # tl (dropWhile (\<lambda>c. c \<noteq> 58) e)"
    using ne by (metis list.collapse)
  then show "e = takeWhile (\<lambda>c. c \<noteq> 58) e @ 58 # tl (dropWhile (\<lambda>c. c \<noteq> 58) e)"
    by (metis takeWhile_dropWhile_id)
qed

lemma colon_split_unique:
  assumes "e = ys @ 58 # vs" and "58 \<notin> set ys"
  shows "takeWhile (\<lambda>c. c \<noteq> 58) e = ys" and "tl (dropWhile (\<lambda>c. c \<noteq> (58::nat)) e) = vs"
proof -
  have all: "\<forall>c \<in> set ys. c \<noteq> 58" using assms(2) by auto
  show "takeWhile (\<lambda>c. c \<noteq> 58) e = ys"
    using all by (simp add: assms(1) takeWhile_append2 [of ys])
  show "tl (dropWhile (\<lambda>c. c \<noteq> (58::nat)) e) = vs"
    using all by (simp add: assms(1) dropWhile_append2 [of ys])
qed

lemma parse_entry_iff:
  "parse_entry int_of float_of c raw = Some (y, v)
     \<longleftrightarrow> (\<exists>x. entry_reads int_of float_of raw y x \<and> v = to_crores c x)"
proof
  assume p: "parse_entry int_of float_of c raw = Some (y, v)"
  let ?e = "strip raw"
  let ?ys = "takeWhile (\<lambda>c. c \<noteq> 58) ?e"
  let ?vs = "tl (dropWhile (\<lambda>c. c \<noteq> 58) ?e)"
  have colon: "58 \<in> set ?e" using p by (auto simp: parse_entry_def Let_def split: if_splits)
  note sp = split_once_colon [OF colon]
  from p obtain x where "int_of (strip ?ys) = Some y" "float_of (strip ?vs) = Some x"
    "strip ?vs \<noteq> []" "lower (strip ?vs) \<noteq> asc ''none''" "v = to_crores c x"
    by (auto simp: parse_entry_def Let_def sp(1) to_crores_def split: if_splits option.splits)
  moreover have "58 \<notin> set ?ys" by (metis (mono_tags, lifting) set_takeWhileD)
  ultimately have "entry_reads int_of float_of raw y x \<and> v = to_crores c x"
    unfolding entry_reads_def using sp(2) by blast
  then show "\<exists>x. entry_reads int_of float_of raw y x \<and> v = to_crores c x" ..
next
  assume "\<exists>x. entry_reads int_of float_of raw y x \<and> v = to_crores c x"
  then obtain x ys vs where e: "strip raw = ys @ 58 # vs" and n: "58 \<notin> set ys"
    and y: "int_of (strip ys) = Some y" and x: "float_of (strip vs) = Some x"
    and ne: "strip vs \<noteq> []" and nn: "lower (strip vs) \<noteq> asc ''none''"
    and v: "v = to_crores c x"
    by (auto simp: entry_reads_def)
  have colon: "58 \<in> set (strip raw)" by (simp add: e)
  note sp = split_once_colon(1) [OF colon]
  note u = colon_split_unique [OF e n]
  show "parse_entry int_of float_of c raw = Some (y, v)"
    using colon y x ne nn
    by (simp add: parse_entry_def Let_def sp u v to_crores_def)
qed

text \<open>The map built by a fold of stores: the last entry stored for a year wins.\<close>

lemma map_of_fold_store_snoc:
  "map_of (fold (store_entry i f c) (es @ [e]) acc) =
     (case parse_entry i f c e of
        None \<Rightarrow> map_of (fold (store_entry i f c) es acc)
      | Some (y, v) \<Rightarrow> (map_of (fold (store_entry i f c) es acc))(y \<mapsto> v))"
  by (simp add: store_entry_def update_conv' split: option.splits)

lemma map_of_fold_store_last:
  "map_of (fold (store_entry i f c) es []) y = Some v \<longleftrightarrow>
     (\<exists>k < length es. parse_entry i f c (es ! k) = Some (y, v)
        \<and> (\<forall>j. k < j \<and> j < length es \<longrightarrow> (\<forall>v'. parse_entry i f c (es ! j) \<noteq> Some (y, v'))))"
proof (induction es arbitrary: v rule: rev_induct)
  case Nil
  then show ?case by simp
next
  case (snoc e es)
  let ?n = "length es"
  show ?case
  proof (cases "\<exists>v'. parse_entry i f c e = Some (y, v')")
    case True
    then obtain v' where v': "parse_entry i f c e = Some (y, v')" by blast
    have l: "map_of (fold (store_entry i f c) (es @ [e]) []) y = Some v'"
      by (simp only: map_of_fold_store_snoc v') simp
    have "(\<exists>k < length (es @ [e]). parse_entry i f c ((es @ [e]) ! k) = Some (y, v)
        \<and> (\<forall>j. k < j \<and> j < length (es @ [e]) \<longrightarrow>
              (\<forall>w. parse_entry i f c ((es @ [e]) ! j) \<noteq> Some (y, w)))) \<longleftrightarrow> v = v'"
    proof
      assume "\<exists>k < length (es @ [e]). parse_entry i f c ((es @ [e]) ! k) = Some (y, v)
        \<and> (\<forall>j. k < j \<and> j < length (es @ [e]) \<longrightarrow>
              (\<forall>w. parse_entry i f c ((es @ [e]) ! j) \<noteq> Some (y, w)))"
      then obtain k where k: "k < Suc ?n" "parse_entry i f c ((es @ [e]) ! k) = Some (y, v)"
        "\<forall>j. k < j \<and> j < Suc ?n \<longrightarrow> (\<forall>w. parse_entry i f c ((es @ [e]) ! j) \<noteq> Some (y, w))"
        by auto
      have "k = ?n"
      proof (rule ccontr)
        assume "k \<noteq> ?n"
        then have kn: "k < ?n \<and> ?n < Suc ?n" using k(1) by simp
        have "parse_entry i f c ((es @ [e]) ! ?n) \<noteq> Some (y, v')"
          using k(3) [rule_format, OF kn] by blast
        then show False using v' by simp
      qed
      then show "v = v'" using k(2) v' by simp
    next
      assume "v = v'"
      then have "parse_entry i f c ((es @ [e]) ! ?n) = Some (y, v)" using v' by simp
      moreover have "\<forall>j. ?n < j \<and> j < length (es @ [e]) \<longrightarrow>
              (\<forall>w. parse_entry i f c ((es @ [e]) ! j) \<noteq> Some (y, w))"
        by auto
      moreover have "?n < length (es @ [e])" by simp
      ultimately show "\<exists>k < length (es @ [e]). parse_entry i f c ((es @ [e]) ! k) = Some (y, v)
        \<and> (\<forall>j. k < j \<and> j < length (es @ [e]) \<longrightarrow>
              (\<forall>w. parse_entry i f c ((es @ [e]) ! j) \<noteq> Some (y, w)))"
        by blast
    qed
    then show ?thesis using l by auto
  next
    case False
    have l: "map_of (fold (store_entry i f c) (es @ [e]) []) y
               = map_of (fold (store_entry i f c) es []) y"
      using False by (simp only: map_of_fold_store_snoc) (auto split: option.splits)
    have "(\<exists>k < length (es @ [e]). parse_entry i f c ((es @ [e]) ! k) = Some (y, v)
        \<and> (\<forall>j. k < j \<and> j < length (es @ [e]) \<longrightarrow>
              (\<forall>w. parse_entry i f c ((es @ [e]) ! j) \<noteq> Some (y, w))))
      \<longleftrightarrow> (\<exists>k < length es. parse_entry i f c (es ! k) = Some (y, v)
        \<and> (\<forall>j. k < j \<and> j < length es \<longrightarrow> (\<forall>w. parse_entry i f c (es ! j) \<noteq> Some (y, w))))"
    proof
      assume "\<exists>k < length (es @ [e]). parse_entry i f c ((es @ [e]) ! k) = Some (y, v)
        \<and> (\<forall>j. k < j \<and> j < length (es @ [e]) \<longrightarrow>
              (\<forall>w. parse_entry i f c ((es @ [e]) ! j) \<noteq> Some (y, w)))"
      then obtain k where k: "k < Suc ?n" "parse_entry i f c ((es @ [e]) ! k) = Some (y, v)"
        "\<forall>j. k < j \<and> j < Suc ?n \<longrightarrow> (\<forall>w. parse_entry i f c ((es @ [e]) ! j) \<noteq> Some (y, w))"
        by auto
      have "k \<noteq> ?n" using k(2) False by auto
      then have kn: "k < ?n" using k(1) by simp
      then have a: "parse_entry i f c (es ! k) = Some (y, v)" using k(2) by (simp add: nth_append)
      have "\<forall>j. k < j \<and> j < ?n \<longrightarrow> (\<forall>w. parse_entry i f c (es ! j) \<noteq> Some (y, w))"
      proof (intro allI impI)
        fix j w assume j: "k < j \<and> j < ?n"
        then have j': "k < j \<and> j < Suc ?n" by simp
        have "parse_entry i f c ((es @ [e]) ! j) \<noteq> Some (y, w)"
          using k(3) [rule_format, OF j'] by blast
        then show "parse_entry i f c (es ! j) \<noteq> Some (y, w)" using j by (simp add: nth_append)
      qed
      then show "\<exists>k < length es. parse_entry i f c (es ! k) = Some (y, v)
        \<and> (\<forall>j. k < j \<and> j < length es \<longrightarrow> (\<forall>w. parse_entry i f c (es ! j) \<noteq> Some (y, w)))"
        using kn a by blast
    next
      assume "\<exists>k < length es. parse_entry i f c (es ! k) = Some (y, v)
        \<and> (\<forall>j. k < j \<and> j < length es \<longrightarrow> (\<forall>w. parse_entry i f c (es ! j) \<noteq> Some (y, w)))"
      then obtain k where k: "k < ?n" "parse_entry i f c (es ! k) = Some (y, v)"
        "\<forall>j. k < j \<and> j < ?n \<longrightarrow> (\<forall>w. parse_entry i f c (es ! j) \<noteq> Some (y, w))"
        by auto
      have a: "parse_entry i f c ((es @ [e]) ! k) = Some (y, v)" using k(1,2) by (simp add: nth_append)
      have "\<forall>j. k < j \<and> j < Suc ?n \<longrightarrow> (\<forall>w. parse_entry i f c ((es @ [e]) ! j) \<noteq> Some (y, w))"
      proof (intro allI impI)
        fix j w assume j: "k < j \<and> j < Suc ?n"
        show "parse_entry i f c ((es @ [e]) ! j) \<noteq> Some (y, w)"
        proof (cases "j = ?n")
          case True
          then show ?thesis using False by auto
        next
          case False
          then have jn: "k < j \<and> j < ?n" using j by simp
          have "parse_entry i f c (es ! j) \<noteq> Some (y, w)"
            using k(3) [rule_format, OF jn] by blast
          then show ?thesis using jn by (simp add: nth_append)
        qed
      qed
      moreover have "k < length (es @ [e])" using k(1) by simp
      ultimately show "\<exists>k < length (es @ [e]). parse_entry i f c ((es @ [e]) ! k) = Some (y, v)
        \<and> (\<forall>j. k < j \<and> j < length (es @ [e]) \<longrightarrow>
              (\<forall>w. parse_entry i f c ((es @ [e]) ! j) \<noteq> Some (y, w)))"
        using a by auto
    qed
    then show ?thesis using l snoc.IH [of v] by simp
  qed
qed

lemma distinct_fold_store:
  "distinct (map fst acc) \<Longrightarrow> distinct (map fst (fold (store_entry i f c) es acc))"
  by (induction es arbitrary: acc) (auto simp: store_entry_def distinct_update split: option.splits)

text \<open>
  C8. The row is split on the bar. A year is in the resulting map exactly when some entry
  reads as an integer year, a colon and a float value that is neither empty nor the word
  none; every other entry is skipped and the entries after it are still read. The value
  stored for a year comes from the last entry with that year: with conversion, a parsed
  value above 100 divided by 100 and a value of at most 100 as it is; without conversion,
  as it is.
\<close>

theorem parse_financial_row_exact:
  "(\<forall>y v. map_of (parse_financial_row int_of float_of row c) y = Some v \<longleftrightarrow>
      (\<exists>k < length (split_on 124 row).
         (\<exists>x. entry_reads int_of float_of (split_on 124 row ! k) y x \<and> v = to_crores c x)
         \<and> (\<forall>j. k < j \<and> j < length (split_on 124 row) \<longrightarrow>
               \<not> (\<exists>x. entry_reads int_of float_of (split_on 124 row ! j) y x))))
   \<and> distinct (map fst (parse_financial_row int_of float_of row c))
   \<and> (\<forall>x. to_crores True x = (if x > 100 then x / 100 else x))
   \<and> (\<forall>x. to_crores False x = x)"
proof -
  let ?es = "split_on 124 row"
  have n: "(\<forall>v'. parse_entry int_of float_of c raw \<noteq> Some (y, v'))
             \<longleftrightarrow> \<not> (\<exists>x. entry_reads int_of float_of raw y x)" for raw y
    using parse_entry_iff [of int_of float_of c raw y] by blast
  have a: "map_of (parse_financial_row int_of float_of row c) y = Some v \<longleftrightarrow>
      (\<exists>k < length ?es.
         (\<exists>x. entry_reads int_of float_of (?es ! k) y x \<and> v = to_crores c x)
         \<and> (\<forall>j. k < j \<and> j < length ?es \<longrightarrow>
               \<not> (\<exists>x. entry_reads int_of float_of (?es ! j) y x)))" for y v
    unfolding parse_financial_row_def map_of_fold_store_last
    unfolding n
    unfolding parse_entry_iff ..
  have b: "distinct (map fst (parse_financial_row int_of float_of row c))"
    using distinct_fold_store [of "[]" int_of float_of c ?es] by (simp add: parse_financial_row_def)
  have f: "\<forall>x. to_crores True x = (if x > 100 then x / 100 else x)" "\<forall>x. to_crores False x = x"
    by (simp_all add: to_crores_def)
  show ?thesis using a b f by blast
qed

lemma demo_row_parsed:
  "parse_financial_row py_int py_float demo_row True
     = [(2014, 425181863 / 10000000), (2015, 175 / 2), (2018, 5 / 2)]"
  by (simp add: parse_financial_row_def store_entry_def parse_entry_def demo_row_def
        string_defs float_defs)

theorem parse_financial_row_exact_witness:
  "parse_financial_row py_int py_float demo_row True
     = [(2014, 425181863 / 10000000), (2015, 175 / 2), (2018, 5 / 2)]
   \<and> (\<exists>k < length (split_on 124 demo_row). \<exists>x.
         entry_reads py_int py_float (split_on 124 demo_row ! k) 2018 x \<and> 5 / 2 = to_crores True x)
   \<and> to_crores True 250 = 5 / 2"
proof -
  note t = parse_financial_row_exact [of py_int py_float demo_row True]
  have m: "map_of (parse_financial_row py_int py_float demo_row True) 2018 = Some (5 / 2)"
    by (simp add: demo_row_parsed)
  have a: "\<exists>k < length (split_on 124 demo_row). \<exists>x.
         entry_reads py_int py_float (split_on 124 demo_row ! k) 2018 x \<and> 5 / 2 = to_crores True x"
    using conjunct1 [OF t, rule_format, of 2018 "5 / 2"] m by blast
  have "\<forall>x. to_crores True x = (if x > 100 then x / 100 else x)"
    by (rule conjunct1 [OF conjunct2 [OF conjunct2 [OF t]]])
  then have c: "to_crores True 250 = 5 / 2" by simp
  show ?thesis by (intro conjI demo_row_parsed a c)
qed

section \<open>Properties of the keyword classification\<close>

lemma first_max_mem: "first_max best es \<in> set (best # es)"
  by (induction es arbitrary: best) (auto split: if_splits)

lemma first_max_ge: "e \<in> set (best # es) \<Longrightarrow> fst (snd e) \<le> fst (snd (first_max best es))"
proof (induction es arbitrary: best e)
  case Nil
  then show ?case by simp
next
  case (Cons x es)
  show ?case
  proof (cases "fst (snd x) > fst (snd best)")
    case True
    have "fst (snd x) \<le> fst (snd (first_max x es))" by (rule Cons.IH) simp
    moreover have "e \<in> set (x # es) \<Longrightarrow> fst (snd e) \<le> fst (snd (first_max x es))"
      by (rule Cons.IH)
    ultimately show ?thesis using True Cons.prems by auto
  next
    case False
    have "fst (snd best) \<le> fst (snd (first_max best es))" by (rule Cons.IH) simp
    moreover have "e \<in> set (best # es) \<Longrightarrow> fst (snd e) \<le> fst (snd (first_max best es))"
      by (rule Cons.IH)
    ultimately show ?thesis using False Cons.prems by auto
  qed
qed

lemma domain_keys_distinct: "distinct domain_keys" and domain_keys_length: "length domain_keys = 8"
  by (simp_all add: domain_keys_def DOMAIN_KEYWORDS_def asc_def)

lemma score_keywords_fst:
  "fst (score_keywords t kws (s, m)) = s + sum_list (map (\<lambda>kw. count_sub (lower kw) t) kws)"
  by (induction kws arbitrary: s m) (auto simp: Let_def)

lemma domain_score_table:
  assumes "(k, n, kws) \<in> set DOMAIN_KEYWORDS"
  shows "domain_score t k = sum_list (map (\<lambda>kw. count_sub (lower kw) t) kws)"
proof -
  have "distinct (map fst DOMAIN_KEYWORDS)"
    using domain_keys_distinct by (simp add: domain_keys_def)
  then have "map_of DOMAIN_KEYWORDS k = Some (n, kws)"
    using assms by (rule map_of_is_SomeI)
  then show ?thesis by (simp add: domain_score_def)
qed

lemma domain_scores_entry:
  assumes "e \<in> set (domain_scores t)"
  shows "fst e \<in> set domain_keys" and "fst (snd e) = domain_score t (fst e)"
proof -
  obtain k n kws where d: "(k, n, kws) \<in> set DOMAIN_KEYWORDS"
    and e: "e = (k, score_keywords t kws (0, []))"
    using assms by (auto simp: domain_scores_def)
  show "fst e \<in> set domain_keys"
    using d by (force simp: e domain_keys_def)
  show "fst (snd e) = domain_score t (fst e)"
    by (simp add: e score_keywords_fst domain_score_table [OF d])
qed

lemma domain_scores_keys: "map fst (domain_scores t) = domain_keys"
  by (simp add: domain_scores_def domain_keys_def case_prod_beta comp_def)

lemma total_score_scores:
  "sum_list (map (\<lambda>e. fst (snd e)) (domain_scores t)) = total_score t"
proof -
  have "map (\<lambda>e. fst (snd e)) (domain_scores t) = map (\<lambda>e. domain_score t (fst e)) (domain_scores t)"
    by (rule map_cong) (simp_all add: domain_scores_entry(2))
  also have "\<dots> = map (domain_score t) (map fst (domain_scores t))" by (simp add: comp_def)
  finally show ?thesis by (simp add: total_score_def domain_scores_keys)
qed

lemma keywords_nonempty:
  "\<forall>(k, n, kws) \<in> set DOMAIN_KEYWORDS. \<forall>kw \<in> set kws. lower kw \<noteq> []"
  by (simp add: DOMAIN_KEYWORDS_def lower_def)

lemma sum_list_pos_iff: "0 < sum_list (xs :: nat list) \<longleftrightarrow> (\<exists>x \<in> set xs. 0 < x)"
  by (induction xs) auto

lemma total_score_pos:
  "0 < total_score t \<longleftrightarrow>
     (\<exists>(k, n, kws) \<in> set DOMAIN_KEYWORDS. \<exists>kw \<in> set kws. str_in (lower kw) t)"
proof
  assume "0 < total_score t"
  then obtain k where k: "k \<in> set domain_keys" "0 < domain_score t k"
    by (auto simp: total_score_def sum_list_pos_iff)
  then obtain x where x: "x \<in> set DOMAIN_KEYWORDS" "fst x = k"
    by (auto simp: domain_keys_def)
  obtain n kws where xe: "x = (k, n, kws)" using x(2) by (cases x) auto
  have "0 < sum_list (map (\<lambda>kw. count_sub (lower kw) t) kws)"
    using k(2) domain_score_table [of k n kws t] x(1) xe by simp
  then obtain kw where kw: "kw \<in> set kws" "0 < count_sub (lower kw) t"
    by (auto simp: sum_list_pos_iff)
  then have "str_in (lower kw) t" by (simp add: count_sub_pos)
  then show "\<exists>(k, n, kws) \<in> set DOMAIN_KEYWORDS. \<exists>kw \<in> set kws. str_in (lower kw) t"
    using x(1) xe kw(1) by blast
next
  assume "\<exists>(k, n, kws) \<in> set DOMAIN_KEYWORDS. \<exists>kw \<in> set kws. str_in (lower kw) t"
  then obtain k n kws kw where d: "(k, n, kws) \<in> set DOMAIN_KEYWORDS"
    and kw: "kw \<in> set kws" "str_in (lower kw) t"
    by blast
  have "lower kw \<noteq> []" using keywords_nonempty d kw(1) by blast
  then have "0 < count_sub (lower kw) t" using kw(2) by (simp add: count_sub_pos)
  then have "0 < sum_list (map (\<lambda>kw. count_sub (lower kw) t) kws)"
    using kw(1) by (auto simp: sum_list_pos_iff)
  then have "0 < domain_score t k" by (simp add: domain_score_table [OF d])
  moreover have "k \<in> set domain_keys" using d by (force simp: domain_keys_def)
  ultimately show "0 < total_score t" by (auto simp: total_score_def sum_list_pos_iff)
qed

text \<open>
  C9. The keyword classification returns one of the eight keys of the keyword table, a key
  whose total keyword count no other key exceeds; the confidence is
  \<open>min 0.9 (best / total + 0.3)\<close> when some keyword occurs in the lowered text and \<open>0.5\<close>
  when none does, and is never above \<open>0.9\<close>. This holds for whatever text the lowering
  yields.
\<close>

theorem classify_with_keywords_result:
  "classify_with_keywords text = classify_lowered (lower text)
   \<and> (case classify_lowered t of (d, conf, reasoning) \<Rightarrow>
        d \<in> set domain_keys \<and> length domain_keys = 8
        \<and> (\<forall>k \<in> set domain_keys. domain_score t k \<le> domain_score t d)
        \<and> conf = (if 0 < total_score t
                   then min (9 / 10) (real (domain_score t d) / real (total_score t) + 3 / 10)
                   else 1 / 2)
        \<and> conf \<le> 9 / 10
        \<and> (0 < total_score t \<longleftrightarrow>
             (\<exists>(k, n, kws) \<in> set DOMAIN_KEYWORDS. \<exists>kw \<in> set kws. str_in (lower kw) t)))"
proof -
  let ?scores = "domain_scores t"
  define best where "best = first_max (hd ?scores) (tl ?scores)"
  have ne: "?scores \<noteq> []" by (simp add: domain_scores_def DOMAIN_KEYWORDS_def)
  then have sc: "hd ?scores # tl ?scores = ?scores" by simp
  have mem: "best \<in> set ?scores"
    using first_max_mem [of "hd ?scores" "tl ?scores"] by (simp only: best_def sc)
  have ge: "fst (snd e) \<le> fst (snd best)" if "e \<in> set ?scores" for e
    using first_max_ge [of e "hd ?scores" "tl ?scores"] that by (simp only: best_def sc)
  have key: "fst best \<in> set domain_keys" by (rule domain_scores_entry(1) [OF mem])
  have bs: "fst (snd best) = domain_score t (fst best)" by (rule domain_scores_entry(2) [OF mem])
  have le: "domain_score t k \<le> domain_score t (fst best)" if "k \<in> set domain_keys" for k
  proof -
    have "k \<in> fst ` set ?scores" using that domain_scores_keys [of t] by (metis set_map)
    then obtain e where e: "e \<in> set ?scores" "fst e = k" by auto
    then show ?thesis using ge [OF e(1)] domain_scores_entry(2) [OF e(1)] bs by simp
  qed
  define conf :: real where
    "conf = (if 0 < total_score t
             then min (9 / 10) (real (domain_score t (fst best)) / real (total_score t) + 3 / 10)
             else 1 / 2)"
  have c9: "conf \<le> 9 / 10" unfolding conf_def by (auto simp: min_def)
  obtain d s m where b: "best = (d, s, m)" by (cases best) auto
  have cl: "classify_lowered t = (d, conf, asc ''Keyword matches: '' @ join (asc '', '') (take 5 m))"
    using bs
    by (simp add: classify_lowered_def Let_def best_def [symmetric] b conf_def total_score_scores)
  have r: "d \<in> set domain_keys \<and> length domain_keys = 8
        \<and> (\<forall>k \<in> set domain_keys. domain_score t k \<le> domain_score t d)
        \<and> conf = (if 0 < total_score t
                   then min (9 / 10) (real (domain_score t d) / real (total_score t) + 3 / 10)
                   else 1 / 2)
        \<and> conf \<le> 9 / 10
        \<and> (0 < total_score t \<longleftrightarrow>
             (\<exists>(k, n, kws) \<in> set DOMAIN_KEYWORDS. \<exists>kw \<in> set kws. str_in (lower kw) t))"
    using key le c9 domain_keys_length total_score_pos [of t] by (simp add: b conf_def)
  have first: "classify_with_keywords text = classify_lowered (lower text)"
    by (simp only: classify_with_keywords_def)
  have second: "case classify_lowered t of (d, conf, reasoning) \<Rightarrow>
        d \<in> set domain_keys \<and> length domain_keys = 8
        \<and> (\<forall>k \<in> set domain_keys. domain_score t k \<le> domain_score t d)
        \<and> conf = (if 0 < total_score t
                   then min (9 / 10) (real (domain_score t d) / real (total_score t) + 3 / 10)
                   else 1 / 2)
        \<and> conf \<le> 9 / 10
        \<and> (0 < total_score t \<longleftrightarrow>
             (\<exists>(k, n, kws) \<in> set DOMAIN_KEYWORDS. \<exists>kw \<in> set kws. str_in (lower kw) t))"
    unfolding cl prod.case by (rule r)
  show ?thesis by (rule conjI [OF first second])
qed

lemma demo_text_classified:
  "classify_lowered (lower demo_text) = (asc ''technology'', 4 / 5, asc ''Keyword matches: crm'')"
  by (simp add: classify_lowered_def domain_scores_def DOMAIN_KEYWORDS_def demo_text_def string_defs)

theorem classify_with_keywords_result_witness:
  "classify_with_keywords demo_text = (asc ''technology'', 4 / 5, asc ''Keyword matches: crm'')
   \<and> asc ''automotive'' \<in> set domain_keys
   \<and> domain_score (lower demo_text) (asc ''automotive'')
        \<le> domain_score (lower demo_text) (asc ''technology'')
   \<and> 0 < total_score (lower demo_text)"
proof -
  note t = classify_with_keywords_result [of demo_text "lower demo_text"]
  have c: "classify_with_keywords demo_text = (asc ''technology'', 4 / 5, asc ''Keyword matches: crm'')"
    using conjunct1 [OF t] by (simp only: demo_text_classified)
  have s: "asc ''technology'' \<in> set domain_keys \<and> length domain_keys = 8
        \<and> (\<forall>k \<in> set domain_keys.
              domain_score (lower demo_text) k \<le> domain_score (lower demo_text) (asc ''technology''))
        \<and> (4 / 5 :: real) = (if 0 < total_score (lower demo_text)
                   then min (9 / 10) (real (domain_score (lower demo_text) (asc ''technology''))
                                        / real (total_score (lower demo_text)) + 3 / 10)
                   else 1 / 2)
        \<and> (4 / 5 :: real) \<le> 9 / 10
        \<and> (0 < total_score (lower demo_text) \<longleftrightarrow>
             (\<exists>(k, n, kws) \<in> set DOMAIN_KEYWORDS. \<exists>kw \<in> set kws. str_in (lower kw) (lower demo_text)))"
    using conjunct2 [OF t] unfolding demo_text_classified prod.case .
  have k: "asc ''automotive'' \<in> set domain_keys"
    by (simp add: domain_keys_def DOMAIN_KEYWORDS_def)
  have l: "domain_score (lower demo_text) (asc ''automotive'')
        \<le> domain_score (lower demo_text) (asc ''technology'')"
    using s k by blast
  have "(4 / 5 :: real) = (if 0 < total_score (lower demo_text)
                   then min (9 / 10) (real (domain_score (lower demo_text) (asc ''technology''))
                                        / real (total_score (lower demo_text)) + 3 / 10)
                   else 1 / 2)"
    using s by blast
  then have p: "0 < total_score (lower demo_text)"
    by (cases "0 < total_score (lower demo_text)") simp_all
  show ?thesis by (intro conjI c k l p)
qed


end
